theory Spec2Isabelle
  imports Main "HOL-Library.Char_ord"
begin

section \<open>Sides, pieces, positions and moves\<close>

text \<open>
  The engine of \<^verbatim>\<open>chess/app/variants/classic.py\<close> (class \<^verbatim>\<open>Normal\<close>) works on
  sides, pieces, positions, moves and a board. A piece is compared by its class and its
  side, a position by its two integer coordinates (file, rank), a move by its source,
  destination and optional promotion class.
\<close>

datatype side = White | Black

datatype kind = King | Queen | Rook | Bishop | Knight | Pawn

datatype piece = Piece (kind_of: kind) (side_of: side)

type_synonym position = "int \<times> int"

record standard_move =
  source :: position
  destination :: position
  promotion :: "kind option"

definition StandardMove :: "position \<Rightarrow> position \<Rightarrow> standard_move" where
  "StandardMove a b = \<lparr>source = a, destination = b, promotion = None\<rparr>"

datatype error =
    NoPiece | NotAValidMove | CausesCheck | NotAValidPromotion | WrongMoveOrder
  | IndexError | ValueError | AttributeError | TypeError

text \<open>
  Modelled from the spec: the exception classes of \<^verbatim>\<open>chess.exceptions.variant\<close> are
  not part of the sources at hand. The loops of \<^verbatim>\<open>can_i_make_a_move\<close> and
  \<^verbatim>\<open>all_available_moves\<close> skip a move on \<^verbatim>\<open>except NotAValidMove\<close>; the spec
  describes them as "attempt the legality check, keep the move on success", and check
  mate is detected through them, so every error of the legality check is taken to be a
  \<^verbatim>\<open>NotAValidMove\<close>. The built-in errors of Python are not.
\<close>

fun is_NotAValidMove :: "error \<Rightarrow> bool" where
  "is_NotAValidMove IndexError = False"
| "is_NotAValidMove ValueError = False"
| "is_NotAValidMove AttributeError = False"
| "is_NotAValidMove TypeError = False"
| "is_NotAValidMove _ = True"

section \<open>The board store\<close>

text \<open>
  Modelled from the spec: \<^verbatim>\<open>StandardBoard\<close> (\<^verbatim>\<open>chess.app.board\<close>) is not part of the
  sources at hand; only its interface \<^verbatim>\<open>chess/interface/board.py\<close> is. The spec gives
  its contract: a mapping from positions to at most one piece with get, put (returning
  the displaced piece), remove (returning the removed piece), a test that a position is
  on the board, and the enumeration of the occupied squares. The board of classic chess
  has eight files and eight ranks. The enumeration order (rank by rank) is a choice of
  the model.
\<close>

type_synonym board = "position \<rightharpoonup> piece"

definition get_piece :: "board \<Rightarrow> position \<Rightarrow> piece option" where
  "get_piece b p = b p"

definition put_piece :: "board \<Rightarrow> piece option \<Rightarrow> position \<Rightarrow> board \<times> piece option" where
  "put_piece b x p = (b(p := x), b p)"

definition remove_piece :: "board \<Rightarrow> position \<Rightarrow> board \<times> piece option" where
  "remove_piece b p = (b(p := None), b p)"

definition validate_position :: "board \<Rightarrow> position \<Rightarrow> bool" where
  "validate_position b p = (0 \<le> fst p \<and> fst p < 8 \<and> 0 \<le> snd p \<and> snd p < 8)"

definition all_positions :: "position list" where
  "all_positions = concat (map (\<lambda>r. map (\<lambda>f. (f, r)) [0..7]) [0..7])"

definition pieces :: "board \<Rightarrow> (position \<times> piece) list" where
  "pieces b = concat (map (\<lambda>p. case b p of None \<Rightarrow> [] | Some x \<Rightarrow> [(p, x)]) all_positions)"

definition find_pieces :: "board \<Rightarrow> piece \<Rightarrow> (position \<times> piece) list" where
  "find_pieces b requested_piece = filter (\<lambda>pp. snd pp = requested_piece) (pieces b)"

section \<open>The piece catalog\<close>

text \<open>
  A movement profile is a list of move descriptors and a list of capture descriptors;
  each descriptor is a direction vector, a maximum distance (\<open>None\<close> for the unbounded
  \<^verbatim>\<open>infinity\<close>), the flag "symmetric in all eight directions" and the flag "stop
  after the first capture".
\<close>

record descriptor =
  vector :: "int \<times> int"
  distance :: "int option"
  any_direction :: bool
  capture_break :: bool

record movement_profile =
  mv_move :: "descriptor list"
  mv_capture :: "descriptor list"

definition Desc :: "int \<times> int \<Rightarrow> int option \<Rightarrow> bool \<Rightarrow> descriptor" where
  "Desc v d a = \<lparr>vector = v, distance = d, any_direction = a, capture_break = True\<rparr>"

text \<open>
  Modelled from the spec: the piece classes of \<^verbatim>\<open>chess.app.pieces\<close> are not part of
  the sources at hand. The spec describes the shape of a profile; the values below are
  those of classic chess: king and knight step once, queen, rook and bishop slide, a
  pawn moves one square forward and captures one square diagonally forward (the engine
  flips a vector that is not symmetric for Black).
\<close>

fun movement :: "piece \<Rightarrow> movement_profile" where
  "movement (Piece King sd) =
     \<lparr>mv_move = [Desc (1, 0) (Some 1) True, Desc (1, 1) (Some 1) True],
      mv_capture = [Desc (1, 0) (Some 1) True, Desc (1, 1) (Some 1) True]\<rparr>"
| "movement (Piece Queen sd) =
     \<lparr>mv_move = [Desc (1, 0) None True, Desc (1, 1) None True],
      mv_capture = [Desc (1, 0) None True, Desc (1, 1) None True]\<rparr>"
| "movement (Piece Rook sd) =
     \<lparr>mv_move = [Desc (1, 0) None True], mv_capture = [Desc (1, 0) None True]\<rparr>"
| "movement (Piece Bishop sd) =
     \<lparr>mv_move = [Desc (1, 1) None True], mv_capture = [Desc (1, 1) None True]\<rparr>"
| "movement (Piece Knight sd) =
     \<lparr>mv_move = [Desc (1, 2) (Some 1) True], mv_capture = [Desc (1, 2) (Some 1) True]\<rparr>"
| "movement (Piece Pawn sd) =
     \<lparr>mv_move = [Desc (0, 1) (Some 1) False],
      mv_capture = [Desc (1, 1) (Some 1) False, Desc (- 1, 1) (Some 1) False]\<rparr>"

section \<open>The engine state\<close>

text \<open>
  The fields of \<^verbatim>\<open>Normal.__init__\<close>. The repetition table is a dictionary from the
  hash of a board to a count, kept as an association list; the pocket is a dictionary
  from a side to the list of pieces it captured; a snapshot is the tuple that
  \<^verbatim>\<open>save_history\<close> copies.
\<close>

type_synonym occurence_table = "(int \<times> int) list"

type_synonym snapshot =
  "board \<times> int \<times> occurence_table \<times> position option \<times> int \<times> int \<times> piece set"

record normal =
  board :: board
  half_moves :: int
  moves_history :: "standard_move list"
  board_history :: "snapshot list"
  position_occurence :: occurence_table
  en_passant :: "position option"
  half_moves_since_pawn_moved :: int
  half_moves_since_capture :: int
  castling :: "piece set"
  pocket :: "side \<Rightarrow> piece list"

definition sides :: "side list" where
  "sides = [White, Black]"

definition on_move :: "normal \<Rightarrow> side" where
  "on_move s = sides ! nat ((half_moves s - 1) mod int (length sides))"

definition moves :: "normal \<Rightarrow> int" where
  "moves s = (half_moves s + 1) div int (length sides)"

definition the_board :: "normal \<Rightarrow> board option \<Rightarrow> board" where
  "the_board s bo = (case bo of None \<Rightarrow> board s | Some b \<Rightarrow> b)"

section \<open>The move generator\<close>

definition transform_vector :: "int \<times> int \<Rightarrow> bool \<Rightarrow> side \<Rightarrow> (int \<times> int) list" where
  "transform_vector v all_directions sd =
     (if all_directions then
        remdups [(fst v, snd v), (snd v, fst v), (snd v, fst v * - 1), (fst v, snd v * - 1),
                 (fst v * - 1, snd v * - 1), (snd v * - 1, fst v * - 1),
                 (snd v * - 1, fst v), (fst v * - 1, snd v)]
      else if sd = Black then [(fst v * - 1, snd v * - 1)]
      else [v])"

definition in_loop :: "int option \<Rightarrow> int \<Rightarrow> bool" where
  "in_loop lim d = (case lim of None \<Rightarrow> True | Some n \<Rightarrow> d \<le> n)"

definition probe :: "position \<Rightarrow> int \<times> int \<Rightarrow> int \<Rightarrow> position" where
  "probe p v d = (fst p + fst v * d, snd p + snd v * d)"

definition idle_ray :: "int \<times> int \<Rightarrow> int option \<Rightarrow> bool" where
  "idle_ray v lim = (v = (0, 0) \<and> lim = None)"

definition ray_left :: "position \<Rightarrow> int \<times> int \<Rightarrow> int option \<Rightarrow> int \<Rightarrow> nat" where
  "ray_left p v lim d =
     (case lim of
        Some n \<Rightarrow> nat (n + 1 - d)
      | None \<Rightarrow>
          (if 0 < fst v then nat (8 - (fst p + fst v * d))
           else if fst v < 0 then nat (fst p + fst v * d + 1)
           else if 0 < snd v then nat (8 - (snd p + snd v * d))
           else if snd v < 0 then nat (snd p + snd v * d + 1)
           else 0))"

text \<open>
  The three ray walks are the inner loops \<^verbatim>\<open>for distance in loop\<close> of
  \<^verbatim>\<open>standard_moves\<close>, \<^verbatim>\<open>standard_captures\<close> and \<^verbatim>\<open>attacked_fields\<close>, started at
  distance 1. With a bounded distance the loop is \<^verbatim>\<open>range(1, distance + 1)\<close>; with
  \<^verbatim>\<open>infinity\<close> it is \<^verbatim>\<open>itertools.count(1)\<close> and ends when the probe leaves the
  board. A zero vector probes the origin itself at every distance: the three callers
  have checked that the origin holds a piece, where every walk breaks at once and adds
  nothing, so the unbounded walk of a zero vector is the empty list here.
\<close>

function walk_moves :: "board \<Rightarrow> position \<Rightarrow> int \<times> int \<Rightarrow> int option \<Rightarrow> int \<Rightarrow> position list" where
  "walk_moves b p v lim d =
     (if idle_ray v lim then []
      else if in_loop lim d then
        (let new_position = probe p v d in
         if validate_position b new_position then
           (if get_piece b new_position = None
            then new_position # walk_moves b p v lim (d + 1)
            else [])
         else [])
      else [])"
  by pat_completeness auto
termination
  by (relation "measure (\<lambda>(b, p, v, lim, d). ray_left p v lim d)")
     (auto simp: ray_left_def in_loop_def idle_ray_def probe_def validate_position_def
                 algebra_simps split: option.splits)

function walk_captures ::
  "board \<Rightarrow> position \<Rightarrow> int \<times> int \<Rightarrow> int option \<Rightarrow> bool \<Rightarrow> side \<Rightarrow> int \<Rightarrow> position list" where
  "walk_captures b p v lim brk sd d =
     (if idle_ray v lim then []
      else if in_loop lim d then
        (let new_position = probe p v d in
         if validate_position b new_position then
           (case get_piece b new_position of
              None \<Rightarrow> walk_captures b p v lim brk sd (d + 1)
            | Some new_piece \<Rightarrow>
                if side_of new_piece = sd then []
                else if brk then [new_position]
                else new_position # walk_captures b p v lim brk sd (d + 1))
         else [])
      else [])"
  by pat_completeness auto
termination
  by (relation "measure (\<lambda>(b, p, v, lim, brk, sd, d). ray_left p v lim d)")
     (auto simp: ray_left_def in_loop_def idle_ray_def probe_def validate_position_def
                 algebra_simps split: option.splits)

function walk_attacked ::
  "board \<Rightarrow> position \<Rightarrow> int \<times> int \<Rightarrow> int option \<Rightarrow> side \<Rightarrow> int \<Rightarrow> position list" where
  "walk_attacked b p v lim sd d =
     (if idle_ray v lim then []
      else if in_loop lim d then
        (let new_position = probe p v d in
         if validate_position b new_position then
           (case get_piece b new_position of
              None \<Rightarrow> new_position # walk_attacked b p v lim sd (d + 1)
            | Some new_piece \<Rightarrow>
                if side_of new_piece = sd then [] else [new_position])
         else [])
      else [])"
  by pat_completeness auto
termination
  by (relation "measure (\<lambda>(b, p, v, lim, sd, d). ray_left p v lim d)")
     (auto simp: ray_left_def in_loop_def idle_ray_def probe_def validate_position_def
                 algebra_simps split: option.splits)

declare walk_moves.simps [simp del] walk_captures.simps [simp del] walk_attacked.simps [simp del]

text \<open>
  Python sets are kept as duplicate-free lists in the order of their construction;
  membership and emptiness are read through \<^const>\<open>set\<close>. The order only matters where
  the source iterates a set and leaves the loop early.
\<close>

definition standard_moves :: "normal \<Rightarrow> position \<Rightarrow> board option \<Rightarrow> error + position list" where
  "standard_moves s position bo =
     (let b = the_board s bo in
      case get_piece b position of
        None \<Rightarrow> Inl NoPiece
      | Some piece \<Rightarrow>
          Inr (remdups (concat (map (\<lambda>m_desc.
                 concat (map (\<lambda>v. walk_moves b position v (distance m_desc) 1)
                   (transform_vector (vector m_desc) (any_direction m_desc) (side_of piece))))
               (mv_move (movement piece))))))"

definition attacked_fields :: "normal \<Rightarrow> position \<Rightarrow> board option \<Rightarrow> error + position list" where
  "attacked_fields s position bo =
     (let b = the_board s bo in
      case get_piece b position of
        None \<Rightarrow> Inl NoPiece
      | Some piece \<Rightarrow>
          Inr (remdups (concat (map (\<lambda>c_desc.
                 concat (map (\<lambda>v. walk_attacked b position v (distance c_desc) (side_of piece) 1)
                   (transform_vector (vector c_desc) (any_direction c_desc) (side_of piece))))
               (mv_capture (movement piece))))))"

definition standard_captures :: "normal \<Rightarrow> position \<Rightarrow> board option \<Rightarrow> error + position list" where
  "standard_captures s position bo =
     (let b = the_board s bo in
      case get_piece b position of
        None \<Rightarrow> Inl NoPiece
      | Some piece \<Rightarrow>
          (case (if kind_of piece = Pawn
                 then (case en_passant s of
                         None \<Rightarrow> Inr []
                       | Some ep \<Rightarrow>
                           (case attacked_fields s position (Some b) of
                              Inl e \<Rightarrow> Inl e
                            | Inr af \<Rightarrow> Inr (if ep \<in> set af then [ep] else [])))
                 else Inr []) of
             Inl e \<Rightarrow> Inl e
           | Inr new_positions \<Rightarrow>
               Inr (remdups (new_positions @ concat (map (\<lambda>c_desc.
                      concat (map (\<lambda>v. walk_captures b position v (distance c_desc)
                                          (capture_break c_desc) (side_of piece) 1)
                        (transform_vector (vector c_desc) (any_direction c_desc) (side_of piece))))
                    (mv_capture (movement piece)))))))"

text \<open>
  \<^verbatim>\<open>attacked_fields_by_sides\<close> is a set comprehension over the pieces of the board: the
  attacked fields of every piece are computed, and kept when the piece belongs to one
  of the given sides. An error of an inner call would leave the comprehension.
\<close>

fun gather :: "('a \<Rightarrow> error + 'b list) \<Rightarrow> 'a list \<Rightarrow> error + 'b list" where
  "gather f [] = Inr []"
| "gather f (x # xs) =
     (case f x of
        Inl e \<Rightarrow> Inl e
      | Inr ys \<Rightarrow> (case gather f xs of Inl e \<Rightarrow> Inl e | Inr zs \<Rightarrow> Inr (ys @ zs)))"

definition attacked_fields_by_sides :: "normal \<Rightarrow> side set \<Rightarrow> board option \<Rightarrow> error + position list" where
  "attacked_fields_by_sides s sds bo =
     (let b = the_board s bo in
      case gather (\<lambda>pp. case attacked_fields s (fst pp) (Some b) of
                          Inl e \<Rightarrow> Inl e
                        | Inr af \<Rightarrow> Inr (if side_of (snd pp) \<in> sds then af else []))
             (pieces b) of
        Inl e \<Rightarrow> Inl e
      | Inr ps \<Rightarrow> Inr (remdups ps))"

definition special_moves :: "normal \<Rightarrow> position \<Rightarrow> board option \<Rightarrow> error + position list" where
  "special_moves s position bo =
     (let b = the_board s bo in
      case get_piece b position of
        None \<Rightarrow> Inl NoPiece
      | Some piece \<Rightarrow>
          if kind_of piece = Pawn then
            (let new_position =
               (if piece = Piece Pawn Black \<and> snd position = 6
                   \<and> get_piece b (fst position, 5) = None
                then Some (fst position, snd position - 2)
                else if piece = Piece Pawn White \<and> snd position = 1
                   \<and> get_piece b (fst position, 2) = None
                then Some (fst position, snd position + 2)
                else None)
             in case new_position of
                  None \<Rightarrow> Inr []
                | Some np \<Rightarrow>
                    if validate_position b np \<and> get_piece b np = None then Inr [np] else Inr [])
          else if kind_of piece = King \<and> castling s \<noteq> {} \<and> fst position = 4 then
            (case attacked_fields_by_sides s (set sides - {on_move s}) None of
               Inl e \<Rightarrow> Inl e
             | Inr attacked \<Rightarrow>
                 (let king_side =
                    (if Piece King (on_move s) \<in> castling s then
                       (let pos1 = (fst position + 1, snd position);
                            pos2 = (fst position + 2, snd position)
                        in if get_piece b pos1 = None \<and> get_piece b pos2 = None
                              \<and> {pos1, pos2} \<inter> set attacked = {}
                           then [pos2] else [])
                     else []);
                      queen_side =
                    (if Piece Queen (on_move s) \<in> castling s then
                       (let pos1 = (fst position - 1, snd position);
                            pos2 = (fst position - 2, snd position);
                            pos3 = (fst position - 2, snd position)
                        in if get_piece b pos1 = None \<and> get_piece b pos2 = None
                              \<and> get_piece b pos3 = None
                              \<and> {pos1, pos2} \<inter> set attacked = {}
                           then [pos2] else [])
                     else [])
                  in Inr (remdups (king_side @ queen_side))))
          else Inr [])"

section \<open>The legality check\<close>

text \<open>
  \<^verbatim>\<open>assert_move\<close> is written in state-passing style: it returns the engine state after
  the call together with its outcome (\<open>Inl\<close> the exception raised, \<open>Inr ()\<close> a normal
  return). The board it changes is \<^verbatim>\<open>test_board\<close>, the deep copy of the engine's
  board. The text of the \<^verbatim>\<open>CausesCheck\<close> message (built with
  \<^verbatim>\<open>who_can_step_here\<close>) is not kept.
\<close>

definition available_dest :: "normal \<Rightarrow> position \<Rightarrow> error + position list" where
  "available_dest s src =
     (case standard_moves s src None of
        Inl e \<Rightarrow> Inl e
      | Inr ms \<Rightarrow>
          (case standard_captures s src None of
             Inl e \<Rightarrow> Inl e
           | Inr cs \<Rightarrow>
               (case special_moves s src None of
                  Inl e \<Rightarrow> Inl e
                | Inr sp \<Rightarrow> Inr (remdups (ms @ cs @ sp)))))"

text \<open>
  The end of \<^verbatim>\<open>assert_move\<close>, from the comment "test on the copied board if move not
  causing any self-check" on: the king of the side on move is looked up on the test
  board, the move is refused when the other sides attack it there, and a pawn that
  reaches the first or the last rank needs a promotion.
\<close>

definition verdict :: "normal \<Rightarrow> standard_move \<Rightarrow> piece \<Rightarrow> board \<Rightarrow> error + unit" where
  "verdict s mv piece test_board =
     (case find_pieces test_board (Piece King (on_move s)) of
        [] \<Rightarrow> Inl IndexError
      | (king_pos, king) # others \<Rightarrow>
          (case attacked_fields_by_sides s (set sides - {side_of piece}) (Some test_board) of
             Inl e \<Rightarrow> Inl e
           | Inr attacked \<Rightarrow>
               if king_pos \<in> set attacked then Inl CausesCheck
               else if kind_of piece = Pawn \<and> (snd (destination mv) = 7 \<or> snd (destination mv) = 0)
                       \<and> promotion mv = None
               then Inl NotAValidPromotion
               else Inr ()))"

definition assert_move :: "normal \<Rightarrow> standard_move \<Rightarrow> normal \<times> (error + unit)" where
  "assert_move s mv =
     (let src = source mv; dst = destination mv in
      case get_piece (board s) src of
        None \<Rightarrow> (s, Inl NoPiece)
      | Some piece \<Rightarrow>
          (case available_dest s src of
             Inl e \<Rightarrow> (s, Inl e)
           | Inr dests \<Rightarrow>
               if dst \<notin> set dests then (s, Inl NotAValidMove)
               else
                 (let test_board = board s;
                      (test_board, test_piece) = remove_piece test_board src;
                      (test_board, displaced) = put_piece test_board test_piece dst;
                      test_board =
                        (if map_option kind_of test_piece = Some Pawn \<and> Some dst = en_passant s
                         then fst (remove_piece test_board (fst dst, snd src))
                         else test_board)
                  in (s, verdict s mv piece test_board))))"

text \<open>
  The same function over a store of board objects, to follow the objects it writes.
  A board is an object at an address of the store; \<^verbatim>\<open>deepcopy\<close> puts a copy at a new
  address; \<^verbatim>\<open>remove_piece\<close> and \<^verbatim>\<open>put_piece\<close> change the object at the address
  they are called on. \<open>self\<close> is the address of the engine's own board, whose content
  the state \<open>s\<close> carries.
\<close>

type_synonym store = "board list"

definition deepcopy :: "store \<Rightarrow> nat \<Rightarrow> store \<times> nat" where
  "deepcopy st r = (st @ [st ! r], length st)"

definition remove_piece_at :: "store \<Rightarrow> nat \<Rightarrow> position \<Rightarrow> store \<times> piece option" where
  "remove_piece_at st r p = (st[r := fst (remove_piece (st ! r) p)], snd (remove_piece (st ! r) p))"

definition put_piece_at :: "store \<Rightarrow> nat \<Rightarrow> piece option \<Rightarrow> position \<Rightarrow> store \<times> piece option" where
  "put_piece_at st r x p = (st[r := fst (put_piece (st ! r) x p)], snd (put_piece (st ! r) x p))"

definition assert_move_in :: "store \<Rightarrow> nat \<Rightarrow> normal \<Rightarrow> standard_move \<Rightarrow> store \<times> (error + unit)" where
  "assert_move_in st0 self s mv =
     (let src = source mv; dst = destination mv in
      case get_piece (st0 ! self) src of
        None \<Rightarrow> (st0, Inl NoPiece)
      | Some piece \<Rightarrow>
          (case available_dest s src of
             Inl e \<Rightarrow> (st0, Inl e)
           | Inr dests \<Rightarrow>
               if dst \<notin> set dests then (st0, Inl NotAValidMove)
               else
                 (let (st, test_board) = deepcopy st0 self;
                      (st, test_piece) = remove_piece_at st test_board src;
                      (st, displaced) = put_piece_at st test_board test_piece dst;
                      st = (if map_option kind_of test_piece = Some Pawn \<and> Some dst = en_passant s
                            then fst (remove_piece_at st test_board (fst dst, snd src))
                            else st)
                  in (st, verdict s mv piece (st ! test_board)))))"

section \<open>Move availability\<close>

fun try_moves :: "normal \<Rightarrow> position \<Rightarrow> position list \<Rightarrow> error + bool" where
  "try_moves s pos [] = Inr False"
| "try_moves s pos (dest # dests) =
     (case snd (assert_move s (StandardMove pos dest)) of
        Inr u \<Rightarrow> Inr True
      | Inl e \<Rightarrow> if is_NotAValidMove e then try_moves s pos dests else Inl e)"

fun can_move_from :: "normal \<Rightarrow> (position \<times> piece) list \<Rightarrow> error + bool" where
  "can_move_from s [] = Inr False"
| "can_move_from s (pp # rest) =
     (if side_of (snd pp) = on_move s then
        (case standard_captures s (fst pp) None of
           Inl e \<Rightarrow> Inl e
         | Inr cs \<Rightarrow>
             (case standard_moves s (fst pp) None of
                Inl e \<Rightarrow> Inl e
              | Inr ms \<Rightarrow>
                  (case special_moves s (fst pp) None of
                     Inl e \<Rightarrow> Inl e
                   | Inr sp \<Rightarrow>
                       (case try_moves s (fst pp) (cs @ ms @ sp) of
                          Inl e \<Rightarrow> Inl e
                        | Inr found \<Rightarrow> if found then Inr True else can_move_from s rest))))
      else can_move_from s rest)"

definition can_i_make_a_move :: "normal \<Rightarrow> error + bool" where
  "can_i_make_a_move s = can_move_from s (pieces (board s))"

fun keep_valid :: "normal \<Rightarrow> position \<Rightarrow> position list \<Rightarrow> error + standard_move list" where
  "keep_valid s pos [] = Inr []"
| "keep_valid s pos (dest # dests) =
     (case snd (assert_move s (StandardMove pos dest)) of
        Inr u \<Rightarrow>
          (case keep_valid s pos dests of
             Inl e \<Rightarrow> Inl e
           | Inr ms \<Rightarrow> Inr (StandardMove pos dest # ms))
      | Inl e \<Rightarrow> if is_NotAValidMove e then keep_valid s pos dests else Inl e)"

definition all_available_moves :: "normal \<Rightarrow> side option \<Rightarrow> error + standard_move list" where
  "all_available_moves s side_arg =
     (let sd = (case side_arg of None \<Rightarrow> on_move s | Some x \<Rightarrow> x) in
      case gather (\<lambda>pp. if side_of (snd pp) \<noteq> sd then Inr []
                        else (case available_dest s (fst pp) of
                                Inl e \<Rightarrow> Inl e
                              | Inr dests \<Rightarrow> keep_valid s (fst pp) dests))
             (pieces (board s)) of
        Inl e \<Rightarrow> Inl e
      | Inr ms \<Rightarrow> Inr (remdups ms))"

section \<open>Position text\<close>

text \<open>
  \<^verbatim>\<open>StandardPosition\<close> of \<^verbatim>\<open>src/domain/pieces.py\<close>: the conversions between a position
  and its text. A string reaches the two \<^verbatim>\<open>from_str\<close> conversions through the
  regular expression \<^verbatim>\<open>^(?P<file>[a-zA-Z]+)(?P<rank>[0-9]+)$\<close>, whose \<^verbatim>\<open>$\<close> also
  matches before a final newline.
\<close>

definition ascii_lowercase :: string where
  "ascii_lowercase = ''abcdefghijklmnopqrstuvwxyz''"

definition ascii_uppercase :: string where
  "ascii_uppercase = ''ABCDEFGHIJKLMNOPQRSTUVWXYZ''"

definition decimal_digits :: string where
  "decimal_digits = ''0123456789''"

fun index_of :: "char \<Rightarrow> string \<Rightarrow> nat option" where
  "index_of c [] = None"
| "index_of c (x # xs) =
     (if c = x then Some 0 else (case index_of c xs of None \<Rightarrow> None | Some i \<Rightarrow> Some (Suc i)))"

definition lower :: "char \<Rightarrow> char" where
  "lower c = (case index_of c ascii_uppercase of None \<Rightarrow> c | Some i \<Rightarrow> ascii_lowercase ! i)"

definition is_letter :: "char \<Rightarrow> bool" where
  "is_letter c = (c \<in> set (ascii_lowercase @ ascii_uppercase))"

definition is_digit :: "char \<Rightarrow> bool" where
  "is_digit c = (c \<in> set decimal_digits)"

definition location_regex :: "string \<Rightarrow> (string \<times> string) option" where
  "location_regex pos =
     (let file = takeWhile is_letter pos; rest = dropWhile is_letter pos;
          rank = takeWhile is_digit rest; tail = dropWhile is_digit rest
      in if file \<noteq> [] \<and> rank \<noteq> [] \<and> (tail = [] \<or> tail = [CHR 0x0A])
         then Some (file, rank) else None)"

text \<open>\<^verbatim>\<open>int(rank)\<close> and \<^verbatim>\<open>str(rank + 1)\<close>: decimal text of an integer.\<close>

definition py_int :: "string \<Rightarrow> int" where
  "py_int ds = foldl (\<lambda>a c. 10 * a + int (case index_of c decimal_digits of None \<Rightarrow> 0 | Some i \<Rightarrow> i)) 0 ds"

fun str_nat :: "nat \<Rightarrow> string" where
  "str_nat n =
     (if n < 10 then [decimal_digits ! n] else str_nat (n div 10) @ [decimal_digits ! (n mod 10)])"

declare str_nat.simps [simp del]

definition py_str :: "int \<Rightarrow> string" where
  "py_str i = (if i < 0 then CHR ''-'' # str_nat (nat (- i)) else str_nat (nat i))"

definition rank_from_str_to_int :: "string \<Rightarrow> int" where
  "rank_from_str_to_int rank = py_int rank - 1"

definition rank_from_int_to_str :: "int \<Rightarrow> string" where
  "rank_from_int_to_str rank = py_str (rank + 1)"

fun add_values :: "int list \<Rightarrow> nat \<Rightarrow> int" where
  "add_values [] counter = 0"
| "add_values (v # vs) counter =
     (if counter < 1 then v else (v * 26) ^ counter) + add_values vs (counter + 1)"

definition file_from_str_to_int :: "string \<Rightarrow> error + int" where
  "file_from_str_to_int rank =
     (if list_all (\<lambda>letter. index_of (lower letter) ascii_lowercase \<noteq> None) rank
      then Inr (add_values
                 (rev (map (\<lambda>letter. case index_of (lower letter) ascii_lowercase of
                                        None \<Rightarrow> 0 | Some i \<Rightarrow> int i) rank)) 0)
      else Inl ValueError)"

function count_chars :: "int \<Rightarrow> nat \<Rightarrow> nat" where
  "count_chars file output_chars =
     (if 26 ^ output_chars \<le> file then count_chars file (output_chars + 1) else output_chars)"
  by pat_completeness auto

lemma count_chars_bound: "(26::int) ^ n \<le> file \<Longrightarrow> n < nat file"
proof -
  assume a: "(26::int) ^ n \<le> file"
  have "n < 26 ^ n"
  proof (induction n)
    case 0
    show ?case by simp
  next
    case (Suc n)
    then have "Suc n \<le> 26 ^ n" by simp
    also have "\<dots> < 26 * 26 ^ n" by simp
    finally show ?case by simp
  qed
  then have "int n < int (26 ^ n)" by (simp only: of_nat_less_iff)
  then have "int n < 26 ^ n" by simp
  then show ?thesis using a by linarith
qed

termination count_chars
  by (relation "measure (\<lambda>(file, output_chars). nat file - output_chars)")
     (auto dest: count_chars_bound)

declare count_chars.simps [simp del]

definition file_from_int_to_str :: "int \<Rightarrow> string" where
  "file_from_int_to_str file =
     map (\<lambda>x. ascii_lowercase ! nat x)
       (rev (map (\<lambda>i. (file div 26 ^ i) mod 26) [0..<count_chars file 1]))"

definition position_str :: "position \<Rightarrow> string" where
  "position_str p = file_from_int_to_str (fst p) @ rank_from_int_to_str (snd p)"

definition StandardPosition_str :: "string \<Rightarrow> error + position" where
  "StandardPosition_str pos =
     (case location_regex pos of
        None \<Rightarrow> Inl ValueError
      | Some (file, rank) \<Rightarrow>
          (case file_from_str_to_int file of
             Inl e \<Rightarrow> Inl e
           | Inr f \<Rightarrow> Inr (f, rank_from_str_to_int rank)))"

section \<open>Construction, history and the state string\<close>

definition init_board_state :: "board \<Rightarrow> board" where
  "init_board_state b0 =
     (let put = (\<lambda>b x p. fst (put_piece b (Some x) p));
          b = put b0 (Piece Rook White) (0, 0);
          b = put b (Piece Rook White) (7, 0);
          b = put b (Piece Knight White) (1, 0);
          b = put b (Piece Knight White) (6, 0);
          b = put b (Piece Bishop White) (2, 0);
          b = put b (Piece Bishop White) (5, 0);
          b = put b (Piece Queen White) (3, 0);
          b = put b (Piece King White) (4, 0);
          b = foldl (\<lambda>b i. put b (Piece Pawn White) (i, 1)) b [0..7];
          b = foldl (\<lambda>b i. put b (Piece Pawn Black) (i, 6)) b [0..7];
          b = put b (Piece Rook Black) (0, 7);
          b = put b (Piece Rook Black) (7, 7);
          b = put b (Piece Knight Black) (1, 7);
          b = put b (Piece Knight Black) (6, 7);
          b = put b (Piece Bishop Black) (2, 7);
          b = put b (Piece Bishop Black) (5, 7);
          b = put b (Piece Queen Black) (3, 7);
          b = put b (Piece King Black) (4, 7)
      in b)"

definition Normal :: "bool \<Rightarrow> normal" where
  "Normal init =
     \<lparr>board = (if init then init_board_state Map.empty else Map.empty),
      half_moves = 1,
      moves_history = [],
      board_history = [],
      position_occurence = [],
      en_passant = None,
      half_moves_since_pawn_moved = 0,
      half_moves_since_capture = 0,
      castling = set (concat (map (\<lambda>sd. map (\<lambda>k. Piece k sd) [King, Queen]) sides)),
      pocket = (\<lambda>sd. [])\<rparr>"

definition save_history :: "normal \<Rightarrow> normal" where
  "save_history s =
     s\<lparr>board_history := board_history s @
          [(board s, half_moves s, position_occurence s, en_passant s,
            half_moves_since_pawn_moved s, half_moves_since_capture s, castling s)]\<rparr>"

definition py_getitem :: "'a list \<Rightarrow> int \<Rightarrow> error + 'a" where
  "py_getitem xs i =
     (if 0 \<le> i \<and> i < int (length xs) then Inr (xs ! nat i)
      else if i < 0 \<and> - int (length xs) \<le> i then Inr (xs ! nat (int (length xs) + i))
      else Inl IndexError)"

fun pop_histories ::
  "nat \<Rightarrow> standard_move list \<Rightarrow> snapshot list
     \<Rightarrow> (standard_move list \<times> snapshot list) \<times> (error + unit)" where
  "pop_histories 0 mh bh = ((mh, bh), Inr ())"
| "pop_histories (Suc n) mh bh =
     (if mh = [] then ((mh, bh), Inl IndexError)
      else if bh = [] then ((butlast mh, bh), Inl IndexError)
      else pop_histories n (butlast mh) (butlast bh))"

definition load_history :: "normal \<Rightarrow> int \<Rightarrow> normal \<times> (error + unit)" where
  "load_history s offset =
     (let index = half_moves s - offset - 1 in
      case py_getitem (board_history s) index of
        Inl e \<Rightarrow> (s, Inl e)
      | Inr (b, hm, occ, ep, pawn_moved, capture, cas) \<Rightarrow>
          (let s = s\<lparr>board := b, half_moves := hm, position_occurence := occ,
                     en_passant := ep, half_moves_since_pawn_moved := pawn_moved,
                     half_moves_since_capture := capture, castling := cas\<rparr>;
               (hs, outcome) = pop_histories (nat offset) (moves_history s) (board_history s)
           in (s\<lparr>moves_history := fst hs, board_history := snd hs\<rparr>, outcome)))"

text \<open>
  Modelled from the spec: the one-letter codes of the piece classes and of the sides
  (\<^verbatim>\<open>piece.fen\<close>, \<^verbatim>\<open>side.char\<close>) are not part of the sources at hand; they follow
  the chess state notation the spec names (upper case for White). The board's own
  \<^verbatim>\<open>get_fen\<close> is a parameter of the state string.
\<close>

fun kind_char :: "kind \<Rightarrow> char" where
  "kind_char King = CHR ''k''"
| "kind_char Queen = CHR ''q''"
| "kind_char Rook = CHR ''r''"
| "kind_char Bishop = CHR ''b''"
| "kind_char Knight = CHR ''n''"
| "kind_char Pawn = CHR ''p''"

definition upper :: "char \<Rightarrow> char" where
  "upper c = (case index_of c ascii_lowercase of None \<Rightarrow> c | Some i \<Rightarrow> ascii_uppercase ! i)"

definition piece_fen :: "piece \<Rightarrow> char" where
  "piece_fen x = (if side_of x = White then upper (kind_char (kind_of x)) else kind_char (kind_of x))"

fun side_char :: "side \<Rightarrow> char" where
  "side_char White = CHR ''w''"
| "side_char Black = CHR ''b''"

definition all_pieces :: "piece list" where
  "all_pieces = concat (map (\<lambda>sd. map (\<lambda>k. Piece k sd) [King, Queen, Rook, Bishop, Knight, Pawn]) sides)"

definition state_str :: "(board \<Rightarrow> string) \<Rightarrow> normal \<Rightarrow> string" where
  "state_str get_fen s =
     get_fen (board s) @ '' '' @ [side_char (on_move s)] @ '' ''
     @ (if castling s \<noteq> {} then sort (map piece_fen (filter (\<lambda>x. x \<in> castling s) all_pieces))
        else ''-'') @ '' ''
     @ (case en_passant s of None \<Rightarrow> ''-'' | Some p \<Rightarrow> position_str p) @ '' ''
     @ py_str (min (half_moves_since_pawn_moved s) (half_moves_since_capture s)) @ '' ''
     @ py_str (moves s)"

section \<open>Committing a move\<close>

text \<open>
  \<^verbatim>\<open>__update_castling_info\<close>: the squares \<^verbatim>\<open>e1\<close>, \<^verbatim>\<open>a1\<close>, \<^verbatim>\<open>h1\<close>, \<^verbatim>\<open>e8\<close>,
  \<^verbatim>\<open>a8\<close>, \<^verbatim>\<open>h8\<close> are written by their coordinates.
\<close>

definition update_castling_info :: "normal \<Rightarrow> position \<Rightarrow> position \<Rightarrow> normal" where
  "update_castling_info s src dst =
     (if castling s \<noteq> {} then
        (let s = (if (4, 0) = src
                  then s\<lparr>castling := castling s - {Piece King White, Piece Queen White}\<rparr>
                  else if (0, 0) = src \<or> (0, 0) = dst
                  then s\<lparr>castling := castling s - {Piece Queen White}\<rparr>
                  else if (7, 0) = src \<or> (7, 0) = dst
                  then s\<lparr>castling := castling s - {Piece King White}\<rparr>
                  else s);
             s = (if (4, 7) = src
                  then s\<lparr>castling := castling s - {Piece King Black, Piece Queen Black}\<rparr>
                  else if (0, 7) = src \<or> (0, 7) = dst
                  then s\<lparr>castling := castling s - {Piece Queen Black}\<rparr>
                  else if (7, 7) = src \<or> (7, 7) = dst
                  then s\<lparr>castling := castling s - {Piece King Black}\<rparr>
                  else s)
         in s)
      else s)"

text \<open>
  \<^verbatim>\<open>self.__position_occurence[key] += 1\<close> on a \<^verbatim>\<open>defaultdict(int)\<close>: a key that is
  missing is entered with count 1.
\<close>

fun bump :: "int \<Rightarrow> occurence_table \<Rightarrow> occurence_table" where
  "bump k [] = [(k, 1)]"
| "bump k (kv # rest) = (if fst kv = k then (k, snd kv + 1) # rest else kv # bump k rest)"

text \<open>
  \<^verbatim>\<open>int(x / 2)\<close> rounds towards zero (the division is exact for the sum of two ranks
  of a board).
\<close>

definition int_half :: "int \<Rightarrow> int" where
  "int_half x = (if 0 \<le> x then x div 2 else - ((- x) div 2))"

text \<open>
  The branch \<^verbatim>\<open>if isinstance(moved_piece, Pawn): ... else: ...\<close> of \<^verbatim>\<open>move\<close>: the
  en-passant capture, the new en-passant square, the pawn counter and the promotion.
  Calling a promotion class that is \<^verbatim>\<open>None\<close> is a \<^verbatim>\<open>TypeError\<close>.
\<close>

definition pawn_branch ::
  "normal \<Rightarrow> standard_move \<Rightarrow> piece option \<Rightarrow> piece option \<Rightarrow> normal \<times> (error + piece option)" where
  "pawn_branch s0 mv moved_piece taken0 =
     (let src = source mv; dst = destination mv in
      if map_option kind_of moved_piece = Some Pawn then
        (let (b, taken_piece) =
               (if Some dst = en_passant s0 then remove_piece (board s0) (fst dst, snd src)
                else (board s0, taken0));
             s = s0\<lparr>board := b\<rparr>;
             s = (if \<bar>snd src - snd dst\<bar> = 2
                  then s\<lparr>en_passant := Some (fst src, int_half (snd src + snd dst))\<rparr>
                  else s\<lparr>en_passant := None\<rparr>);
             s = s\<lparr>half_moves_since_pawn_moved := 0\<rparr>
         in if snd dst = 7 \<or> snd dst = 0 then
              (case promotion mv of
                 None \<Rightarrow> (s, Inl TypeError)
               | Some k \<Rightarrow>
                   (s\<lparr>board := fst (put_piece (board s) (Some (Piece k (on_move s))) dst)\<rparr>,
                    Inr taken_piece))
            else (s, Inr taken_piece))
      else
        (s0\<lparr>en_passant := None,
            half_moves_since_pawn_moved := half_moves_since_pawn_moved s0 + 1\<rparr>, Inr taken0))"

definition castle_rook :: "normal \<Rightarrow> standard_move \<Rightarrow> piece option \<Rightarrow> normal" where
  "castle_rook s mv moved_piece =
     (let src = source mv; dst = destination mv in
      if map_option kind_of moved_piece = Some King \<and> \<bar>fst src - fst dst\<bar> = 2 then
        (let rank = snd src in
         if fst dst = 6 then
           (let (b, moved_rook) = remove_piece (board s) (7, rank);
                (b, displaced) = put_piece b moved_rook (5, rank)
            in s\<lparr>board := b\<rparr>)
         else if fst dst = 2 then
           (let (b, moved_rook) = remove_piece (board s) (0, rank);
                (b, displaced) = put_piece b moved_rook (3, rank)
            in s\<lparr>board := b\<rparr>)
         else s)
      else s)"

definition count_capture :: "normal \<Rightarrow> piece option \<Rightarrow> normal" where
  "count_capture s taken_piece =
     (case taken_piece of
        None \<Rightarrow> s\<lparr>half_moves_since_capture := half_moves_since_capture s + 1\<rparr>
      | Some x \<Rightarrow>
          s\<lparr>half_moves_since_capture := 0,
            pocket := (pocket s)(on_move s := pocket s (on_move s) @ [x])\<rparr>)"

text \<open>
  The key under which \<^verbatim>\<open>move\<close> counts the state it has produced is
  \<^verbatim>\<open>hash(self.board)\<close>. The hash of a board (\<^verbatim>\<open>StandardBoard.__hash__\<close>, not part
  of the sources at hand) is the parameter \<open>hash_board\<close>.
\<close>

definition repetition_key :: "(board \<Rightarrow> int) \<Rightarrow> normal \<Rightarrow> int" where
  "repetition_key hash_board s = hash_board (board s)"

text \<open>\<^verbatim>\<open>move\<close>, in state-passing style: the state after the call and its outcome.\<close>

definition move ::
  "(board \<Rightarrow> int) \<Rightarrow> normal \<Rightarrow> standard_move \<Rightarrow> normal \<times> (error + piece option)" where
  "move hash_board s0 mv =
     (case assert_move s0 mv of
        (s, Inl e) \<Rightarrow> (s, Inl e)
      | (s, Inr u) \<Rightarrow>
          (let src = source mv; dst = destination mv in
           case get_piece (board s) src of
             None \<Rightarrow> (s, Inl AttributeError)
           | Some piece \<Rightarrow>
               if side_of piece \<noteq> on_move s then (s, Inl WrongMoveOrder)
               else
                 (let s = save_history s;
                      (b, moved_piece) = remove_piece (board s) src;
                      (b, taken_piece) = put_piece b moved_piece dst;
                      s = s\<lparr>board := b\<rparr>
                  in case pawn_branch s mv moved_piece taken_piece of
                       (s, Inl e) \<Rightarrow> (s, Inl e)
                     | (s, Inr taken_piece) \<Rightarrow>
                         (let s = castle_rook s mv moved_piece;
                              s = count_capture s taken_piece;
                              s = update_castling_info s src dst;
                              s = s\<lparr>position_occurence :=
                                      bump (repetition_key hash_board s) (position_occurence s)\<rparr>;
                              s = s\<lparr>moves_history := moves_history s @ [mv]\<rparr>;
                              s = s\<lparr>half_moves := half_moves s + 1\<rparr>
                          in (s, Inr taken_piece)))))"

section \<open>The game-state evaluator\<close>

text \<open>
  \<^verbatim>\<open>cond and not self.can_i_make_a_move()\<close>: the move search runs only when the
  condition holds.
\<close>

definition and_cannot_move :: "bool \<Rightarrow> normal \<Rightarrow> error + bool" where
  "and_cannot_move cond s =
     (if cond then (case can_i_make_a_move s of Inl e \<Rightarrow> Inl e | Inr c \<Rightarrow> Inr (\<not> c))
      else Inr False)"

fun first_true :: "(error + bool) list \<Rightarrow> error + bool" where
  "first_true [] = Inr False"
| "first_true (x # xs) =
     (case x of Inl e \<Rightarrow> Inl e | Inr t \<Rightarrow> if t then Inr True else first_true xs)"

definition piece_set :: "normal \<Rightarrow> piece set" where
  "piece_set s = set (map snd (pieces (board s)))"

definition insufficient_material :: "normal \<Rightarrow> error + bool" where
  "insufficient_material s =
     (let pcs = piece_set s; kings = {Piece King White, Piece King Black} in
      if card pcs < 4 then
        first_true
          [Inr (pcs = kings),
           and_cannot_move (pcs = insert (Piece Knight White) kings) s,
           and_cannot_move (pcs = insert (Piece Knight Black) kings) s,
           and_cannot_move (pcs = insert (Piece Bishop White) kings) s,
           and_cannot_move (pcs = insert (Piece Bishop Black) kings) s]
      else Inr False)"

definition game_state :: "normal \<Rightarrow> error + (side set option \<times> string option)" where
  "game_state s =
     (case insufficient_material s of
        Inl e \<Rightarrow> Inl e
      | Inr insufficient \<Rightarrow>
          if insufficient then Inr (Some (set sides), Some ''insufficient material'')
          else if 50 \<le> half_moves_since_pawn_moved s \<and> 50 \<le> half_moves_since_capture s
          then Inr (Some (set sides), Some ''fifty-move rule'')
          else if list_ex (\<lambda>kv. 3 \<le> snd kv) (position_occurence s)
          then Inr (Some (set sides), Some ''threefold repetition'')
          else
            (case can_i_make_a_move s of
               Inl e \<Rightarrow> Inl e
             | Inr c \<Rightarrow>
                 if c then Inr (None, None)
                 else
                   (case find_pieces (board s) (Piece King (on_move s)) of
                      [] \<Rightarrow> Inl IndexError
                    | kp # others \<Rightarrow>
                        (case attacked_fields_by_sides s (set sides - {on_move s}) None of
                           Inl e \<Rightarrow> Inl e
                         | Inr attacked \<Rightarrow>
                             if fst kp \<in> set attacked
                             then Inr (Some (set sides - {on_move s}), Some ''check mate'')
                             else Inr (Some (set sides), Some ''stalemate'')))))"

section \<open>The legality check and the commit, step by step\<close>

text \<open>
  The legality check returns the state it was given. A move it accepts has a piece on
  its source square and, for a pawn that reaches the first or the last rank, a
  promotion: the two Python errors of \<^verbatim>\<open>move\<close> after the check cannot happen.
\<close>

lemma fst_assert_move: "fst (assert_move s mv) = s"
  by (simp add: assert_move_def Let_def case_prod_beta split: option.splits sum.splits)

lemma store_steps:
  "fst (deepcopy st r) = st @ [st ! r]" "snd (deepcopy st r) = length st"
  "fst (remove_piece_at (st @ [b]) (length st) p) = st @ [fst (remove_piece b p)]"
  "snd (remove_piece_at (st @ [b]) (length st) p) = snd (remove_piece b p)"
  "fst (put_piece_at (st @ [b]) (length st) x p) = st @ [fst (put_piece b x p)]"
  "snd (put_piece_at (st @ [b]) (length st) x p) = snd (put_piece b x p)"
  by (simp_all add: deepcopy_def remove_piece_at_def put_piece_at_def)

lemma assert_move_in_store:
  assumes "self < length st" "board s = st ! self"
  shows "snd (assert_move_in st self s mv) = snd (assert_move s mv)
       \<and> take (length st) (fst (assert_move_in st self s mv)) = st"
  using assms
  by (auto simp add: assert_move_in_def assert_move_def Let_def case_prod_beta store_steps
           split: option.splits sum.splits)

lemma assert_move_eq: "assert_move s mv = (s, snd (assert_move s mv))"
  by (metis fst_assert_move prod.collapse)

lemma verdict_ok:
  assumes "verdict s mv piece b = Inr u"
  shows "\<not> (kind_of piece = Pawn \<and> (snd (destination mv) = 7 \<or> snd (destination mv) = 0)
            \<and> promotion mv = None)"
  using assms
  by (auto simp add: verdict_def split: sum.splits list.splits prod.splits if_splits)

lemma assert_move_ok:
  assumes "snd (assert_move s mv) = Inr u"
  shows "\<exists>piece. get_piece (board s) (source mv) = Some piece
          \<and> \<not> (kind_of piece = Pawn \<and> (snd (destination mv) = 7 \<or> snd (destination mv) = 0) \<and> promotion mv = None)"
  using assms
  by (auto simp add: assert_move_def Let_def case_prod_beta dest: verdict_ok
           split: option.splits sum.splits if_splits)

lemma pawn_branch_returns:
  assumes "\<not> (map_option kind_of mp = Some Pawn \<and> (snd (destination mv) = 7 \<or> snd (destination mv) = 0) \<and> promotion mv = None)"
  shows "\<exists>t. snd (pawn_branch s mv mp t0) = Inr t"
  using assms
  by (auto simp add: pawn_branch_def Let_def split: prod.splits option.splits)

lemma castling_pawn_branch: "castling (fst (pawn_branch s mv mp t0)) = castling s"
  by (auto simp add: pawn_branch_def Let_def split: prod.splits option.splits)

lemma castling_castle_rook: "castling (castle_rook s mv mp) = castling s"
  by (auto simp add: castle_rook_def Let_def split: prod.splits)

lemma castling_count_capture: "castling (count_capture s t) = castling s"
  by (auto simp add: count_capture_def split: option.splits)

lemma castling_update_castling_info: "castling (update_castling_info s a b) \<subseteq> castling s"
  by (auto simp add: update_castling_info_def Let_def)

text \<open>
  The statements of \<^verbatim>\<open>move\<close> after the pawn branch, and \<^verbatim>\<open>move\<close> as a case
  distinction over its exits.
\<close>

definition commit_tail ::
  "(board \<Rightarrow> int) \<Rightarrow> normal \<Rightarrow> standard_move \<Rightarrow> piece option \<Rightarrow> piece option \<Rightarrow> normal" where
  "commit_tail h s mv mp t =
     (let s = castle_rook s mv mp;
          s = count_capture s t;
          s = update_castling_info s (source mv) (destination mv);
          s = s\<lparr>position_occurence := bump (repetition_key h s) (position_occurence s)\<rparr>;
          s = s\<lparr>moves_history := moves_history s @ [mv]\<rparr>;
          s = s\<lparr>half_moves := half_moves s + 1\<rparr>
      in s)"

lemma save_history_simps [simp]:
  "board (save_history s) = board s"
  "half_moves (save_history s) = half_moves s"
  "castling (save_history s) = castling s"
  "en_passant (save_history s) = en_passant s"
  "on_move (save_history s) = on_move s"
  by (simp_all add: save_history_def on_move_def)

lemma move_cases:
  "move h s mv =
     (case snd (assert_move s mv) of
        Inl e \<Rightarrow> (s, Inl e)
      | Inr u \<Rightarrow>
          (case get_piece (board s) (source mv) of
             None \<Rightarrow> (s, Inl AttributeError)
           | Some piece \<Rightarrow>
               if side_of piece \<noteq> on_move s then (s, Inl WrongMoveOrder)
               else
                 (let s1 = (save_history s)\<lparr>board := (board s)(source mv := None, destination mv := Some piece)\<rparr>;
                      r = pawn_branch s1 mv (Some piece) (((board s)(source mv := None)) (destination mv))
                  in case snd r of
                       Inl e \<Rightarrow> (fst r, Inl e)
                     | Inr t \<Rightarrow> (commit_tail h (fst r) mv (Some piece) t, Inr t))))"
  apply (subst move_def)
  apply (subst assert_move_eq)
  apply (simp add: Let_def case_prod_beta commit_tail_def remove_piece_def put_piece_def get_piece_def
         split: sum.splits option.splits)
  done

lemma move_rejected:
  assumes "snd (move h s mv) = Inl e"
  shows "fst (move h s mv) = s"
proof (cases "snd (assert_move s mv)")
  case (Inl e')
  then show ?thesis by (simp add: move_cases)
next
  case (Inr u)
  from assert_move_ok [OF Inr] obtain piece where
    p: "get_piece (board s) (source mv) = Some piece"
    and q: "\<not> (kind_of piece = Pawn \<and> (snd (destination mv) = 7 \<or> snd (destination mv) = 0) \<and> promotion mv = None)"
    by blast
  show ?thesis
  proof (cases "side_of piece = on_move s")
    case False
    with Inr p show ?thesis by (simp add: move_cases)
  next
    case True
    from q have "\<not> (map_option kind_of (Some piece) = Some Pawn \<and> (snd (destination mv) = 7 \<or> snd (destination mv) = 0) \<and> promotion mv = None)"
      by simp
    from pawn_branch_returns [OF this] obtain t where
      "snd (pawn_branch ((save_history s)\<lparr>board := (board s)(source mv := None, destination mv := Some piece)\<rparr>) mv (Some piece) (((board s)(source mv := None)) (destination mv))) = Inr t"
      by blast
    with Inr p True assms show ?thesis by (simp add: move_cases Let_def)
  qed
qed

lemma castling_commit_tail: "castling (commit_tail h s mv mp t) \<subseteq> castling s"
proof -
  have "castling (commit_tail h s mv mp t) 
      = castling (update_castling_info (count_capture (castle_rook s mv mp) t) (source mv) (destination mv))"
    by (simp add: commit_tail_def Let_def)
  also have "\<dots> \<subseteq> castling (count_capture (castle_rook s mv mp) t)"
    by (rule castling_update_castling_info)
  finally show ?thesis by (simp add: castling_count_capture castling_castle_rook)
qed

lemma castling_move: "castling (fst (move h s mv)) \<subseteq> castling s"
proof -
  have tail: "\<And>s' mp t. castling s' = castling s \<Longrightarrow> castling (commit_tail h s' mv mp t) \<subseteq> castling s"
    using castling_commit_tail by metis
  show ?thesis
    by (simp add: move_cases Let_def tail castling_pawn_branch split: sum.splits option.splits)
qed

text \<open>
  What an accepted move does to the two histories and to the half-move counter:
  \<^verbatim>\<open>save_history\<close> pushes the snapshot of the state before the move, the move is
  appended, the counter grows by one.
\<close>

definition snapshot_of :: "normal \<Rightarrow> snapshot" where
  "snapshot_of s = (board s, half_moves s, position_occurence s, en_passant s,
            half_moves_since_pawn_moved s, half_moves_since_capture s, castling s)"

lemma histories_save_history [simp]:
  "board_history (save_history s) = board_history s @ [snapshot_of s]"
  "moves_history (save_history s) = moves_history s"
  by (simp_all add: save_history_def snapshot_of_def)

lemma histories_pawn_branch [simp]:
  "board_history (fst (pawn_branch s mv mp t0)) = board_history s"
  "moves_history (fst (pawn_branch s mv mp t0)) = moves_history s"
  "half_moves (fst (pawn_branch s mv mp t0)) = half_moves s"
  by (auto simp add: pawn_branch_def Let_def split: prod.splits option.splits)

lemma histories_castle_rook [simp]:
  "board_history (castle_rook s mv mp) = board_history s"
  "moves_history (castle_rook s mv mp) = moves_history s"
  "half_moves (castle_rook s mv mp) = half_moves s"
  by (auto simp add: castle_rook_def Let_def split: prod.splits)

lemma histories_count_capture [simp]:
  "board_history (count_capture s t) = board_history s"
  "moves_history (count_capture s t) = moves_history s"
  "half_moves (count_capture s t) = half_moves s"
  by (auto simp add: count_capture_def split: option.splits)

lemma histories_update_castling_info [simp]:
  "board_history (update_castling_info s a b) = board_history s"
  "moves_history (update_castling_info s a b) = moves_history s"
  "half_moves (update_castling_info s a b) = half_moves s"
  by (auto simp add: update_castling_info_def Let_def)

lemma histories_commit_tail [simp]:
  "board_history (commit_tail h s mv mp t) = board_history s"
  "moves_history (commit_tail h s mv mp t) = moves_history s @ [mv]"
  "half_moves (commit_tail h s mv mp t) = half_moves s + 1"
  by (simp_all add: commit_tail_def Let_def)

definition staged ::
  "normal \<Rightarrow> standard_move \<Rightarrow> piece \<Rightarrow> normal \<times> (error + piece option)" where
  "staged s mv piece =
     pawn_branch ((save_history s)\<lparr>board := (board s)(source mv := None, destination mv := Some piece)\<rparr>)
       mv (Some piece) (((board s)(source mv := None)) (destination mv))"

lemma move_accepted_form:
  assumes "snd (move h s mv) = Inr t"
  shows "\<exists>piece. get_piece (board s) (source mv) = Some piece \<and> side_of piece = on_move s
           \<and> snd (assert_move s mv) = Inr ()
           \<and> snd (staged s mv piece) = Inr t
           \<and> fst (move h s mv) = commit_tail h (fst (staged s mv piece)) mv (Some piece) t"
proof (cases "snd (assert_move s mv)")
  case (Inl e)
  with assms show ?thesis by (simp add: move_cases)
next
  case (Inr u)
  show ?thesis
  proof (cases "get_piece (board s) (source mv)")
    case None
    with Inr assms show ?thesis by (simp add: move_cases)
  next
    case (Some piece)
    show ?thesis
    proof (cases "side_of piece = on_move s")
      case False
      with Inr Some assms show ?thesis by (simp add: move_cases)
    next
      case True
      show ?thesis
      proof (cases "snd (staged s mv piece)")
        case (Inl e)
        with Inr Some True assms show ?thesis
          by (simp add: move_cases Let_def staged_def)
      next
        case r: (Inr t')
        with Inr Some True assms show ?thesis
          by (simp add: move_cases Let_def staged_def)
      qed
    qed
  qed
qed

lemma histories_staged [simp]:
  "board_history (fst (staged s mv piece)) = board_history s @ [snapshot_of s]"
  "moves_history (fst (staged s mv piece)) = moves_history s"
  "half_moves (fst (staged s mv piece)) = half_moves s"
  by (simp_all add: staged_def)

lemma move_accepted:
  assumes "snd (move h s mv) = Inr t"
  shows "board_history (fst (move h s mv)) = board_history s @ [snapshot_of s]
       \<and> moves_history (fst (move h s mv)) = moves_history s @ [mv]
       \<and> half_moves (fst (move h s mv)) = half_moves s + 1"
proof -
  from move_accepted_form [OF assms] obtain piece where
    "fst (move h s mv) = commit_tail h (fst (staged s mv piece)) mv (Some piece) t"
    by blast
  then show ?thesis by simp
qed

text \<open>
  The invariant behind \<^verbatim>\<open>load_history\<close>: the snapshot stack holds one snapshot for
  every half-move made, and the snapshot at index \<open>i\<close> was taken at half-move
  \<open>i + 1\<close>.
\<close>

definition history_ok :: "normal \<Rightarrow> bool" where
  "history_ok s = (int (length (board_history s)) = half_moves s - 1
      \<and> (\<forall>i < length (board_history s). fst (snd (board_history s ! i)) = int i + 1))"

lemma history_ok_Normal: "history_ok (Normal init)"
  by (simp add: history_ok_def Normal_def)

lemma history_ok_move:
  assumes "history_ok s"
  shows "history_ok (fst (move h s mv))"
proof (cases "snd (move h s mv)")
  case (Inl e)
  then show ?thesis using assms by (simp add: move_rejected)
next
  case (Inr t)
  from move_accepted [OF Inr] assms show ?thesis
    by (auto simp add: history_ok_def nth_append snapshot_of_def)
qed

lemma take_after_butlast:
  assumes "0 < length xs"
  shows "take (length (butlast xs) - n) (butlast xs) = take (length xs - Suc n) xs"
proof -
  have "take (length (butlast xs) - n) (butlast xs) = take (length xs - 1 - n) (butlast xs)"
    by (simp only: length_butlast)
  also have "\<dots> = take (length xs - 1 - n) xs"
    by (rule take_butlast) (use assms in linarith)
  finally show ?thesis by (simp only: diff_diff_left plus_1_eq_Suc)
qed

lemma Suc_le_after_butlast: "n \<le> length (butlast xs) \<Longrightarrow> 0 < length xs \<Longrightarrow> Suc n \<le> length xs"
  unfolding length_butlast by linarith

lemma pop_histories_ok:
  "snd (pop_histories n mh bh) = Inr () \<Longrightarrow>
     n \<le> length bh \<and> n \<le> length mh \<and> fst (pop_histories n mh bh) = (take (length mh - n) mh, take (length bh - n) bh)"
proof (induction n mh bh rule: pop_histories.induct)
  case (1 mh bh)
  then show ?case by simp
next
  case (2 n mh bh)
  from "2.prems" have ne: "mh \<noteq> []" "bh \<noteq> []"
    by (auto split: if_splits)
  then have pos: "0 < length mh" "0 < length bh" by simp_all
  from "2.prems" ne have "snd (pop_histories n (butlast mh) (butlast bh)) = Inr ()"
    by simp
  from "2.IH" [OF ne this] have
    a: "n \<le> length (butlast bh)" "n \<le> length (butlast mh)" and
    b: "fst (pop_histories n (butlast mh) (butlast bh)) =
          (take (length (butlast mh) - n) (butlast mh), take (length (butlast bh) - n) (butlast bh))"
    by blast+
  have c: "Suc n \<le> length bh" "Suc n \<le> length mh"
    using a pos by (blast intro: Suc_le_after_butlast)+
  from ne have "fst (pop_histories (Suc n) mh bh) = fst (pop_histories n (butlast mh) (butlast bh))"
    by simp
  also note b
  finally show ?case
    using c by (simp only: take_after_butlast [OF pos(1)] take_after_butlast [OF pos(2)] simp_thms)
qed

lemma py_getitem_last: "py_getitem (xs @ [x]) (int (length xs)) = Inr x"
  by (simp add: py_getitem_def)

lemma py_getitem_nth: "0 \<le> i \<Longrightarrow> i < int (length xs) \<Longrightarrow> py_getitem xs i = Inr (xs ! nat i)"
  by (simp add: py_getitem_def)

lemma load_history_ok:
  assumes ok: "history_ok s" and ld: "snd (load_history s offset) = Inr ()"
  shows "history_ok (fst (load_history s offset))"
proof -
  let ?bh = "board_history s"
  let ?index = "half_moves s - offset - 1"
  from ok have len: "int (length ?bh) = half_moves s - 1" 
    and snaps: "\<forall>i < length ?bh. fst (snd (?bh ! i)) = int i + 1"
    by (simp_all add: history_ok_def)
  from ld obtain sn where sn: "py_getitem ?bh ?index = Inr sn"
    by (cases "py_getitem ?bh ?index") (simp_all add: load_history_def Let_def)
  obtain b hm occ ep pm cp cas where sn_eq: "sn = (b, hm, occ, ep, pm, cp, cas)"
    by (cases sn) auto
  from ld sn sn_eq have pops: "snd (pop_histories (nat offset) (moves_history s) ?bh) = Inr ()"
    by (simp add: load_history_def Let_def case_prod_beta)
  from pop_histories_ok [OF pops] have 
    off: "nat offset \<le> length ?bh" and
    popped: "fst (pop_histories (nat offset) (moves_history s) ?bh) = 
       (take (length (moves_history s) - nat offset) (moves_history s), take (length ?bh - nat offset) ?bh)"
    by simp_all
  have offpos: "0 < offset"
  proof (rule ccontr)
    assume "\<not> 0 < offset"
    then have "int (length ?bh) \<le> ?index" using len by simp
    then have "py_getitem ?bh ?index = Inl IndexError" by (simp add: py_getitem_def)
    with sn show False by simp
  qed
  have idx: "0 \<le> ?index" "?index < int (length ?bh)" "nat ?index = length ?bh - nat offset"
    using off offpos len by linarith+
  from sn idx have "sn = ?bh ! nat ?index" by (simp add: py_getitem_nth)
  with snaps idx have "fst (snd sn) = int (nat ?index) + 1" by simp
  with sn_eq idx have hm: "hm = int (length ?bh - nat offset) + 1" by simp
  from sn sn_eq popped have
    fields: "half_moves (fst (load_history s offset)) = hm"
            "board_history (fst (load_history s offset)) = take (length ?bh - nat offset) ?bh"
    by (simp_all add: load_history_def Let_def case_prod_beta)
  show ?thesis
    using fields hm snaps off by (simp add: history_ok_def)
qed

text \<open>
  The states of a game: the state the constructor builds, and every state that a call
  of \<^verbatim>\<open>move\<close> (accepted or not) or a call of \<^verbatim>\<open>load_history\<close> that returns leaves.
\<close>

inductive reachable :: "(board \<Rightarrow> int) \<Rightarrow> normal \<Rightarrow> bool" for h :: "board \<Rightarrow> int" where
  created: "reachable h (Normal init)"
| moved: "reachable h s \<Longrightarrow> reachable h (fst (move h s mv))"
| loaded: "reachable h s \<Longrightarrow> snd (load_history s offset) = Inr () \<Longrightarrow>
            reachable h (fst (load_history s offset))"

lemma reachable_history_ok: "reachable h s \<Longrightarrow> history_ok s"
  by (induction rule: reachable.induct)
     (simp_all add: history_ok_Normal history_ok_move load_history_ok)

lemma state_str_cong:
  assumes "board a = board b" "half_moves a = half_moves b" "castling a = castling b"
    "en_passant a = en_passant b" "half_moves_since_pawn_moved a = half_moves_since_pawn_moved b"
    "half_moves_since_capture a = half_moves_since_capture b"
  shows "state_str get_fen a = state_str get_fen b"
  using assms by (simp add: state_str_def on_move_def moves_def)

lemma undo_last_move:
  assumes ok: "history_ok s" and mv: "snd (move h s mv) = Inr t"
  shows "load_history (fst (move h s mv)) 1 =
           ((fst (move h s mv))\<lparr>board := board s, half_moves := half_moves s,
               position_occurence := position_occurence s, en_passant := en_passant s,
               half_moves_since_pawn_moved := half_moves_since_pawn_moved s,
               half_moves_since_capture := half_moves_since_capture s,
               castling := castling s, moves_history := moves_history s,
               board_history := board_history s\<rparr>, Inr ())"
proof -
  let ?s' = "fst (move h s mv)"
  from move_accepted [OF mv] have
    bh: "board_history ?s' = board_history s @ [snapshot_of s]" and
    mh: "moves_history ?s' = moves_history s @ [mv]" and
    hm: "half_moves ?s' = half_moves s + 1"
    by simp_all
  from ok have len: "int (length (board_history s)) = half_moves s - 1"
    by (simp add: history_ok_def)
  have "half_moves ?s' - 1 - 1 = int (length (board_history s))"
    using hm len by simp
  then have g: "py_getitem (board_history ?s') (half_moves ?s' - 1 - 1) = Inr (snapshot_of s)"
    using bh by (simp add: py_getitem_last)
  show ?thesis
    unfolding load_history_def Let_def g
    by (simp add: snapshot_of_def bh mh)
qed

text \<open>A sequence of calls of \<^verbatim>\<open>move\<close>, each on the state the one before left.\<close>

fun commit_all :: "(board \<Rightarrow> int) \<Rightarrow> normal \<Rightarrow> standard_move list \<Rightarrow> normal" where
  "commit_all h s [] = s"
| "commit_all h s (mv # mvs) = commit_all h (fst (move h s mv)) mvs"

lemma castling_commit_all: "castling (commit_all h s mvs) \<subseteq> castling s"
proof (induction mvs arbitrary: s)
  case Nil
  show ?case by simp
next
  case (Cons mv mvs)
  have "castling (commit_all h (fst (move h s mv)) mvs) \<subseteq> castling (fst (move h s mv))"
    by (rule Cons.IH)
  also have "\<dots> \<subseteq> castling s" by (rule castling_move)
  finally show ?case by simp
qed

section \<open>Rejected moves\<close>

text \<open>
  C6. A call of \<^verbatim>\<open>move\<close> that raises (any of the validation errors \<^verbatim>\<open>NoPiece\<close>,
  \<^verbatim>\<open>NotAValidMove\<close>, \<^verbatim>\<open>CausesCheck\<close>, \<^verbatim>\<open>NotAValidPromotion\<close>, \<^verbatim>\<open>WrongMoveOrder\<close>,
  or any other error) leaves the whole engine state (board, counters, en-passant target,
  castling rights, repetition table, pockets, move and snapshot history) as it was; and
  \<^verbatim>\<open>assert_move\<close> leaves the state as it was whatever its outcome. Over a store of
  board objects, \<^verbatim>\<open>assert_move\<close> has the same outcome and leaves every object that
  was in the store before the call, the engine's board among them, as it was: it only
  writes to the copy it makes.
\<close>

theorem rejected_move_changes_nothing:
  "(snd (move h s mv) = Inl e \<longrightarrow> fst (move h s mv) = s)
   \<and> fst (assert_move s mv) = s
   \<and> (self < length st \<and> board s = st ! self \<longrightarrow>
        snd (assert_move_in st self s mv) = snd (assert_move s mv)
        \<and> take (length st) (fst (assert_move_in st self s mv)) = st)"
proof (intro conjI impI)
  assume "snd (move h s mv) = Inl e"
  then show "fst (move h s mv) = s"
    by (rule move_rejected)
next
  show "fst (assert_move s mv) = s"
    by (rule fst_assert_move)
next
  assume a: "self < length st \<and> board s = st ! self"
  then show "snd (assert_move_in st self s mv) = snd (assert_move s mv)"
    using assert_move_in_store [of self st s mv] by simp
  from a show "take (length st) (fst (assert_move_in st self s mv)) = st"
    using assert_move_in_store [of self st s mv] by simp
qed

theorem rejected_move_changes_nothing_witness:
  "snd (move (\<lambda>b. 0) (Normal True) (StandardMove (4, 3) (4, 4))) = Inl NoPiece
   \<and> fst (move (\<lambda>b. 0) (Normal True) (StandardMove (4, 3) (4, 4))) = Normal True
   \<and> fst (assert_move (Normal True) (StandardMove (4, 3) (4, 4))) = Normal True
   \<and> (0::nat) < length [board (Normal True)]
   \<and> board (Normal True) = [board (Normal True)] ! 0
   \<and> snd (assert_move_in [board (Normal True)] 0 (Normal True) (StandardMove (4, 1) (4, 3))) = Inr ()
   \<and> take (length [board (Normal True)])
        (fst (assert_move_in [board (Normal True)] 0 (Normal True) (StandardMove (4, 1) (4, 3))))
       = [board (Normal True)]"
proof -
  have r: "snd (move (\<lambda>b. 0) (Normal True) (StandardMove (4, 3) (4, 4))) = Inl NoPiece"
    by code_simp
  have a: "snd (assert_move (Normal True) (StandardMove (4, 1) (4, 3))) = Inr ()"
    by code_simp
  from rejected_move_changes_nothing
         [of "\<lambda>b. 0" "Normal True" "StandardMove (4, 3) (4, 4)" NoPiece 0 "[board (Normal True)]"]
       rejected_move_changes_nothing
         [of "\<lambda>b. 0" "Normal True" "StandardMove (4, 1) (4, 3)" NoPiece 0 "[board (Normal True)]"]
       r a
  show ?thesis by simp
qed

section \<open>Castling rights only shrink\<close>

text \<open>
  C7. A call of \<^verbatim>\<open>move\<close> never adds an entry to the castling-rights set, and neither
  does any sequence of such calls: the set after is a subset of the set before.
\<close>

theorem castling_rights_never_grow:
  "castling (fst (move h s mv)) \<subseteq> castling s \<and> castling (commit_all h s mvs) \<subseteq> castling s"
proof
  show "castling (fst (move h s mv)) \<subseteq> castling s"
    by (rule castling_move)
  show "castling (commit_all h s mvs) \<subseteq> castling s"
    by (rule castling_commit_all)
qed

section \<open>Undoing the last move\<close>

text \<open>
  C5. In a state reached from the constructor by calls of \<^verbatim>\<open>move\<close> and successful
  calls of \<^verbatim>\<open>load_history\<close>, a move that is accepted and then rolled back by
  \<^verbatim>\<open>load_history(1)\<close> gives a state whose state string (board layout, side to move,
  castling rights, en-passant square, counter, full-move number) is the one before the
  move, whatever the board's own \<^verbatim>\<open>get_fen\<close> is.
\<close>

theorem rollback_restores_state_str:
  assumes "reachable h s" and "snd (move h s mv) = Inr taken"
  shows "snd (load_history (fst (move h s mv)) 1) = Inr ()
       \<and> state_str get_fen (fst (load_history (fst (move h s mv)) 1)) = state_str get_fen s"
proof -
  from assms(1) have ok: "history_ok s" by (rule reachable_history_ok)
  note undone = undo_last_move [OF ok assms(2)]
  have "state_str get_fen (fst (load_history (fst (move h s mv)) 1)) = state_str get_fen s"
    unfolding undone fst_conv by (rule state_str_cong) simp_all
  then show ?thesis
    unfolding undone by simp
qed

theorem rollback_restores_state_str_witness:
  "reachable (\<lambda>b. 0) (Normal True)
   \<and> snd (move (\<lambda>b. 0) (Normal True) (StandardMove (4, 1) (4, 3))) = Inr None
   \<and> snd (load_history (fst (move (\<lambda>b. 0) (Normal True) (StandardMove (4, 1) (4, 3)))) 1) = Inr ()
   \<and> state_str (\<lambda>b. []) (fst (load_history (fst (move (\<lambda>b. 0) (Normal True) (StandardMove (4, 1) (4, 3)))) 1))
       = state_str (\<lambda>b. []) (Normal True)"
proof -
  have r: "reachable (\<lambda>b. 0) (Normal True)" by (rule reachable.created)
  have m: "snd (move (\<lambda>b. 0) (Normal True) (StandardMove (4, 1) (4, 3))) = Inr None"
    by code_simp
  from rollback_restores_state_str [OF r m, of "\<lambda>b. []"] r m show ?thesis by simp
qed

section \<open>The repetition table\<close>

lemma occurence_frames [simp]:
  "position_occurence (save_history s) = position_occurence s"
  "position_occurence (fst (pawn_branch s mv mp t0)) = position_occurence s"
  "position_occurence (castle_rook s mv mp) = position_occurence s"
  "position_occurence (count_capture s t) = position_occurence s"
  "position_occurence (update_castling_info s a b) = position_occurence s"
  by (auto simp add: save_history_def pawn_branch_def castle_rook_def count_capture_def
        update_castling_info_def Let_def split: prod.splits option.splits)

lemma occurence_staged [simp]: "position_occurence (fst (staged s mv piece)) = position_occurence s"
  by (simp add: staged_def)

lemma occurence_commit_tail:
  "position_occurence (commit_tail h s mv mp t)
     = bump (repetition_key h (commit_tail h s mv mp t)) (position_occurence s)"
  by (simp add: commit_tail_def Let_def repetition_key_def)

lemma move_counts_position:
  assumes "snd (move h s mv) = Inr t"
  shows "position_occurence (fst (move h s mv))
           = bump (repetition_key h (fst (move h s mv))) (position_occurence s)"
proof -
  from move_accepted_form [OF assms] obtain piece where
    "fst (move h s mv) = commit_tail h (fst (staged s mv piece)) mv (Some piece) t"
    by blast
  then show ?thesis by (simp add: occurence_commit_tail)
qed

lemma threefold_needs_count:
  assumes "game_state s = Inr (w, Some ''threefold repetition'')"
  shows "\<exists>kv \<in> set (position_occurence s). 3 \<le> snd kv"
  using assms
  by (auto simp add: game_state_def list_ex_iff split: sum.splits if_splits list.splits)

lemma move_hash_independent:
  "snd (move h s mv) = snd (move h' s mv)
   \<and> board (fst (move h s mv)) = board (fst (move h' s mv))
   \<and> half_moves (fst (move h s mv)) = half_moves (fst (move h' s mv))"
  by (simp add: move_cases Let_def commit_tail_def split: sum.splits option.splits)

text \<open>
  Two endings of king and rook against king. In the first White is to move and plays
  the rook from \<^verbatim>\<open>a2\<close> to \<^verbatim>\<open>a1\<close>; in the second Black is to move and plays the
  king from \<^verbatim>\<open>e7\<close> to \<^verbatim>\<open>e8\<close>. Both moves give the same board, with a different
  side to move.
\<close>

definition rook_moved_state :: normal where
  "rook_moved_state =
     (Normal False)
       \<lparr>board := [(4, 0) \<mapsto> Piece King White, (0, 1) \<mapsto> Piece Rook White, (4, 7) \<mapsto> Piece King Black],
        castling := {}\<rparr>"

definition king_moved_state :: normal where
  "king_moved_state =
     (Normal False)
       \<lparr>board := [(4, 0) \<mapsto> Piece King White, (0, 0) \<mapsto> Piece Rook White, (4, 6) \<mapsto> Piece King Black],
        half_moves := 2,
        castling := {}\<rparr>"

lemma same_board_eval:
  "snd (move (\<lambda>b. 0) rook_moved_state (StandardMove (0, 1) (0, 0))) = Inr None
   \<and> snd (move (\<lambda>b. 0) king_moved_state (StandardMove (4, 6) (4, 7))) = Inr None
   \<and> on_move (fst (move (\<lambda>b. 0) rook_moved_state (StandardMove (0, 1) (0, 0)))) = Black
   \<and> on_move (fst (move (\<lambda>b. 0) king_moved_state (StandardMove (4, 6) (4, 7)))) = White"
  by code_simp

lemma same_board_eval2:
  "board (fst (move (\<lambda>b. 0) rook_moved_state (StandardMove (0, 1) (0, 0))))
   = board (fst (move (\<lambda>b. 0) king_moved_state (StandardMove (4, 6) (4, 7))))"
  apply (rule ext)
  apply code_simp
  apply auto
  done

text \<open>
  C3, as stated, fails: whatever the hash of a board is, the two moves above are
  accepted and give states that differ in the side to move, and the key counted for
  the one is the key counted for the other.
\<close>

theorem same_board_same_key:
  "\<forall>h. snd (move h rook_moved_state (StandardMove (0, 1) (0, 0))) = Inr None
     \<and> snd (move h king_moved_state (StandardMove (4, 6) (4, 7))) = Inr None
     \<and> on_move (fst (move h rook_moved_state (StandardMove (0, 1) (0, 0))))
         \<noteq> on_move (fst (move h king_moved_state (StandardMove (4, 6) (4, 7))))
     \<and> repetition_key h (fst (move h rook_moved_state (StandardMove (0, 1) (0, 0))))
         = repetition_key h (fst (move h king_moved_state (StandardMove (4, 6) (4, 7))))"
proof
  fix h :: "board \<Rightarrow> int"
  let ?z = "\<lambda>b::board. 0::int"
  let ?a = "move h rook_moved_state (StandardMove (0, 1) (0, 0))"
  let ?b = "move h king_moved_state (StandardMove (4, 6) (4, 7))"
  note ia = move_hash_independent [of h rook_moved_state "StandardMove (0, 1) (0, 0)" ?z]
  note ib = move_hash_independent [of h king_moved_state "StandardMove (4, 6) (4, 7)" ?z]
  have "snd ?a = Inr None" "snd ?b = Inr None"
    using ia ib same_board_eval by simp_all
  moreover have "on_move (fst ?a) \<noteq> on_move (fst ?b)"
    using ia ib same_board_eval by (simp add: on_move_def)
  moreover have "repetition_key h (fst ?a) = repetition_key h (fst ?b)"
    using ia ib same_board_eval2 by (simp add: repetition_key_def)
  ultimately show "snd ?a = Inr None \<and> snd ?b = Inr None
     \<and> on_move (fst ?a) \<noteq> on_move (fst ?b)
     \<and> repetition_key h (fst ?a) = repetition_key h (fst ?b)"
    by simp
qed

text \<open>
  C3, amended. The key that a committed move counts is the hash of the resulting board
  alone: states with the same board have the same key, whatever their side to move,
  castling rights and en-passant target; a committed move adds one to the count of the
  key of the state it produces; and \<^verbatim>\<open>game_state\<close> gives the reason "threefold
  repetition" only when some key has been counted three times or more.
\<close>

theorem repetition_key_is_board_hash:
  "(board a = board b \<longrightarrow> repetition_key h a = repetition_key h b)
   \<and> (snd (move h s mv) = Inr t \<longrightarrow>
        position_occurence (fst (move h s mv))
          = bump (repetition_key h (fst (move h s mv))) (position_occurence s))
   \<and> (game_state s' = Inr (w, Some ''threefold repetition'') \<longrightarrow>
        (\<exists>kv \<in> set (position_occurence s'). 3 \<le> snd kv))"
proof (intro conjI impI)
  assume "board a = board b"
  then show "repetition_key h a = repetition_key h b"
    by (simp add: repetition_key_def)
next
  assume "snd (move h s mv) = Inr t"
  then show "position_occurence (fst (move h s mv))
          = bump (repetition_key h (fst (move h s mv))) (position_occurence s)"
    by (rule move_counts_position)
next
  assume "game_state s' = Inr (w, Some ''threefold repetition'')"
  then show "\<exists>kv \<in> set (position_occurence s'). 3 \<le> snd kv"
    by (rule threefold_needs_count)
qed

definition thrice_state :: normal where
  "thrice_state = (Normal True)\<lparr>position_occurence := [(0, 3)], half_moves := 7\<rparr>"

theorem repetition_key_is_board_hash_witness:
  "board (Normal True) = board thrice_state
   \<and> repetition_key (\<lambda>b. 0) (Normal True) = repetition_key (\<lambda>b. 0) thrice_state
   \<and> snd (move (\<lambda>b. 0) (Normal True) (StandardMove (4, 1) (4, 3))) = Inr None
   \<and> position_occurence (fst (move (\<lambda>b. 0) (Normal True) (StandardMove (4, 1) (4, 3))))
        = bump (repetition_key (\<lambda>b. 0) (fst (move (\<lambda>b. 0) (Normal True) (StandardMove (4, 1) (4, 3)))))
            (position_occurence (Normal True))
   \<and> game_state thrice_state = Inr (Some {White, Black}, Some ''threefold repetition'')
   \<and> (\<exists>kv \<in> set (position_occurence thrice_state). 3 \<le> snd kv)"
proof -
  have b: "board (Normal True) = board thrice_state"
    by (simp add: thrice_state_def)
  have m: "snd (move (\<lambda>b. 0) (Normal True) (StandardMove (4, 1) (4, 3))) = Inr None"
    by code_simp
  have g: "game_state thrice_state = Inr (Some {White, Black}, Some ''threefold repetition'')"
    by code_simp
  from repetition_key_is_board_hash
         [of "Normal True" thrice_state "\<lambda>b. 0" "Normal True" "StandardMove (4, 1) (4, 3)" None
             thrice_state "Some {White, Black}"]
       b m g
  show ?thesis by simp
qed

section \<open>Insufficient material\<close>

lemma bare_kings_insufficient:
  assumes "piece_set s = {Piece King White, Piece King Black}"
  shows "insufficient_material s = Inr True"
  using assms by (simp add: insufficient_material_def Let_def)

lemma lone_minor_insufficient:
  assumes p: "piece_set s = {Piece King White, Piece King Black, Piece k sd}"
    and k: "k = Bishop \<or> k = Knight"
    and c: "can_i_make_a_move s = Inr cm"
  shows "insufficient_material s = Inr (\<not> cm)"
proof -
  have "card (set [Piece King White, Piece King Black, Piece k sd]) \<le> 3"
    using card_length [of "[Piece King White, Piece King Black, Piece k sd]"] by simp
  then have card: "card (piece_set s) < 4"
    unfolding p by simp
  have eqs: "{Piece King White, Piece King Black, Piece k sd} = insert (Piece k sd) {Piece King White, Piece King Black}"
    by auto
  have inj: "\<And>k' sd'. (k' = Bishop \<or> k' = Knight) \<Longrightarrow> 
      (insert (Piece k sd) {Piece King White, Piece King Black} = insert (Piece k' sd') {Piece King White, Piece King Black})
       = (k = k' \<and> sd = sd')"
    using k by auto
  have nk: "insert (Piece k sd) {Piece King White, Piece King Black} \<noteq> {Piece King White, Piece King Black}"
    using k by auto
  from k show ?thesis
    unfolding insufficient_material_def Let_def
    using card c nk
    apply (simp only: p eqs if_True)
    apply (cases sd; elim disjE; simp add: and_cannot_move_def inj nk)
    done
qed

lemma sides_set: "set sides = {White, Black}"
  by (simp add: sides_def)

text \<open>
  The number of pieces on the board. \<^verbatim>\<open>game_state\<close> itself looks at the set of the
  piece values only, in which two bishops of one side are one value; a position with
  exactly one king of each side and exactly one more piece has three pieces and three
  piece values.
\<close>

definition piece_count :: "normal \<Rightarrow> nat" where
  "piece_count s = length (pieces (board s))"

definition bare_kings_state :: normal where
  "bare_kings_state =
     (Normal False)
       \<lparr>board := [(4, 0) \<mapsto> Piece King White, (4, 7) \<mapsto> Piece King Black],
        castling := {}\<rparr>"

definition bishop_state :: normal where
  "bishop_state =
     (Normal False)
       \<lparr>board := [(0, 0) \<mapsto> Piece King White, (2, 0) \<mapsto> Piece Bishop White, (7, 7) \<mapsto> Piece King Black],
        castling := {}\<rparr>"

definition stalemate_state :: normal where
  "stalemate_state =
     (Normal False)
       \<lparr>board := [(1, 5) \<mapsto> Piece King White, (4, 4) \<mapsto> Piece Bishop White, (0, 7) \<mapsto> Piece King Black],
        half_moves := 2,
        castling := {}\<rparr>"

text \<open>
  C4, as stated, fails: with the white king on \<^verbatim>\<open>a1\<close>, a white bishop on \<^verbatim>\<open>c1\<close>,
  the black king on \<^verbatim>\<open>h8\<close> and White to move, the board holds three pieces, the two
  kings and one bishop, and \<^verbatim>\<open>game_state\<close> reports no result.
\<close>

theorem lone_bishop_not_reported:
  "piece_count bishop_state = 3
   \<and> piece_set bishop_state = {Piece King White, Piece King Black, Piece Bishop White}
   \<and> game_state bishop_state = Inr (None, None)"
  by code_simp

text \<open>
  C4, amended. For every position that holds exactly a king of each side and no other
  piece, \<^verbatim>\<open>game_state\<close> reports a draw for all sides with the reason "insufficient
  material", whatever the move counters are. For every position that holds exactly a
  king of each side and exactly one more piece, a bishop or a knight of either side, it
  reports that draw when the side to move has no move available
  (\<^verbatim>\<open>can_i_make_a_move\<close> returns \<^verbatim>\<open>False\<close>), whatever the move counters are, and
  never gives that reason when a move is available.
\<close>

theorem insufficient_material_needs_no_move:
  "(piece_count s = 2 \<and> piece_set s = {Piece King White, Piece King Black} \<longrightarrow>
      game_state s = Inr (Some {White, Black}, Some ''insufficient material''))
   \<and> (piece_count s = 3 \<and> piece_set s = {Piece King White, Piece King Black, Piece k sd}
        \<and> (k = Bishop \<or> k = Knight) \<and> can_i_make_a_move s = Inr False \<longrightarrow>
      game_state s = Inr (Some {White, Black}, Some ''insufficient material''))
   \<and> (piece_count s = 3 \<and> piece_set s = {Piece King White, Piece King Black, Piece k sd}
        \<and> (k = Bishop \<or> k = Knight) \<and> can_i_make_a_move s = Inr True \<longrightarrow>
      (\<forall>w. game_state s \<noteq> Inr (w, Some ''insufficient material'')))"
proof (intro conjI impI)
  assume "piece_count s = 2 \<and> piece_set s = {Piece King White, Piece King Black}"
  then have "insufficient_material s = Inr True"
    by (simp add: bare_kings_insufficient)
  then show "game_state s = Inr (Some {White, Black}, Some ''insufficient material'')"
    by (simp add: game_state_def sides_set)
next
  assume "piece_count s = 3 \<and> piece_set s = {Piece King White, Piece King Black, Piece k sd}
        \<and> (k = Bishop \<or> k = Knight) \<and> can_i_make_a_move s = Inr False"
  then have "insufficient_material s = Inr True"
    using lone_minor_insufficient [of s k sd False] by simp
  then show "game_state s = Inr (Some {White, Black}, Some ''insufficient material'')"
    by (simp add: game_state_def sides_set)
next
  assume a: "piece_count s = 3 \<and> piece_set s = {Piece King White, Piece King Black, Piece k sd}
        \<and> (k = Bishop \<or> k = Knight) \<and> can_i_make_a_move s = Inr True"
  then have "insufficient_material s = Inr False"
    using lone_minor_insufficient [of s k sd True] by simp
  with a show "\<forall>w. game_state s \<noteq> Inr (w, Some ''insufficient material'')"
    by (simp add: game_state_def)
qed

theorem insufficient_material_needs_no_move_witness:
  "piece_count bare_kings_state = 2
   \<and> piece_set bare_kings_state = {Piece King White, Piece King Black}
   \<and> game_state bare_kings_state = Inr (Some {White, Black}, Some ''insufficient material'')
   \<and> piece_count stalemate_state = 3
   \<and> piece_set stalemate_state = {Piece King White, Piece King Black, Piece Bishop White}
   \<and> can_i_make_a_move stalemate_state = Inr False
   \<and> game_state stalemate_state = Inr (Some {White, Black}, Some ''insufficient material'')
   \<and> piece_count bishop_state = 3
   \<and> piece_set bishop_state = {Piece King White, Piece King Black, Piece Bishop White}
   \<and> can_i_make_a_move bishop_state = Inr True
   \<and> (\<forall>w. game_state bishop_state \<noteq> Inr (w, Some ''insufficient material''))"
proof -
  have a: "piece_count bare_kings_state = 2"
          "piece_set bare_kings_state = {Piece King White, Piece King Black}"
    by code_simp+
  have b: "piece_count stalemate_state = 3"
          "piece_set stalemate_state = {Piece King White, Piece King Black, Piece Bishop White}"
          "can_i_make_a_move stalemate_state = Inr False"
    by code_simp+
  have c: "piece_count bishop_state = 3"
          "piece_set bishop_state = {Piece King White, Piece King Black, Piece Bishop White}"
          "can_i_make_a_move bishop_state = Inr True"
    by code_simp+
  from insufficient_material_needs_no_move [of bare_kings_state Bishop White]
       insufficient_material_needs_no_move [of stalemate_state Bishop White]
       insufficient_material_needs_no_move [of bishop_state Bishop White]
       a b c
  show ?thesis by simp
qed

section \<open>The fifty-move rule\<close>

text \<open>
  King and rook against king, with both counters at 50 half-moves.
\<close>

definition fifty_state :: normal where
  "fifty_state =
     (Normal False)
       \<lparr>board := [(4, 0) \<mapsto> Piece King White, (0, 0) \<mapsto> Piece Rook White, (4, 7) \<mapsto> Piece King Black],
        half_moves := 51,
        half_moves_since_pawn_moved := 50,
        half_moves_since_capture := 50,
        castling := {}\<rparr>"

text \<open>
  C2. The claim puts the threshold of the fifty-move rule at 100 half-moves. The code
  compares both half-move counters with 50: in the state above, with both counters at
  50, \<^verbatim>\<open>game_state\<close> already reports the draw.
\<close>

theorem fifty_move_rule_after_50_half_moves:
  "half_moves_since_pawn_moved fifty_state = 50
   \<and> half_moves_since_capture fifty_state = 50
   \<and> game_state fifty_state = Inr (Some {White, Black}, Some ''fifty-move rule'')"
  by code_simp

section \<open>Castling out of check\<close>

text \<open>
  White king on \<^verbatim>\<open>e1\<close>, white rook on \<^verbatim>\<open>h1\<close>, black rook on \<^verbatim>\<open>e8\<close>, black king
  on \<^verbatim>\<open>a8\<close>; White is to move and holds the king-side castling right.
\<close>

definition castle_state :: normal where
  "castle_state =
     (Normal False)
       \<lparr>board := [(4, 0) \<mapsto> Piece King White, (7, 0) \<mapsto> Piece Rook White,
                  (4, 7) \<mapsto> Piece Rook Black, (0, 7) \<mapsto> Piece King Black],
        castling := {Piece King White}\<rparr>"

text \<open>
  C1. The claim lets the king castle only when its own square is not attacked. In the
  state above the black rook attacks \<^verbatim>\<open>e1\<close>, yet \<^verbatim>\<open>special_moves\<close> generates the
  castling destination \<^verbatim>\<open>g1\<close> and \<^verbatim>\<open>assert_move\<close> accepts \<^verbatim>\<open>e1g1\<close>: the code tests
  the transit and the destination square against the attacked fields, not the king's
  current square.
\<close>

theorem castling_out_of_check_is_generated:
  "on_move castle_state = White
   \<and> Piece King White \<in> castling castle_state
   \<and> get_piece (board castle_state) (5, 0) = None
   \<and> get_piece (board castle_state) (6, 0) = None
   \<and> map_sum id (\<lambda>ps. (5, 0) \<in> set ps \<or> (6, 0) \<in> set ps)
         (attacked_fields_by_sides castle_state {Black} None) = Inr False
   \<and> map_sum id (\<lambda>ps. (4, 0) \<in> set ps)
         (attacked_fields_by_sides castle_state {Black} None) = Inr True
   \<and> map_sum id (\<lambda>ps. (6, 0) \<in> set ps) (special_moves castle_state (4, 0) None) = Inr True
   \<and> snd (assert_move castle_state (StandardMove (4, 0) (6, 0))) = Inr ()"
  by code_simp

section \<open>Position text, there and back\<close>

lemma letters_table:
  "list_all (\<lambda>n. index_of (lower (ascii_lowercase ! n)) ascii_lowercase = Some n
                \<and> is_letter (ascii_lowercase ! n) \<and> \<not> is_digit (ascii_lowercase ! n)) [0..<26]"
  by code_simp

lemma digits_table:
  "list_all (\<lambda>n. index_of (decimal_digits ! n) decimal_digits = Some n
                \<and> is_digit (decimal_digits ! n) \<and> \<not> is_letter (decimal_digits ! n)) [0..<10]"
  by code_simp

lemma letter_facts:
  assumes "n < 26"
  shows "index_of (lower (ascii_lowercase ! n)) ascii_lowercase = Some n"
    and "is_letter (ascii_lowercase ! n)" and "\<not> is_digit (ascii_lowercase ! n)"
  using letters_table assms by (simp_all add: list_all_iff)

lemma digit_facts:
  assumes "n < 10"
  shows "index_of (decimal_digits ! n) decimal_digits = Some n"
    and "is_digit (decimal_digits ! n)" and "\<not> is_letter (decimal_digits ! n)"
  using digits_table assms by (simp_all add: list_all_iff)

lemma py_int_snoc:
  "py_int (ds @ [c]) = 10 * py_int ds + int (case index_of c decimal_digits of None \<Rightarrow> 0 | Some i \<Rightarrow> i)"
  by (simp add: py_int_def)

lemma str_nat_digits: "str_nat n \<noteq> [] \<and> list_all is_digit (str_nat n) \<and> py_int (str_nat n) = int n"
proof (induction n rule: str_nat.induct)
  case (1 n)
  show ?case
  proof (cases "n < 10")
    case True
    then show ?thesis
      by (subst (1 2 3) str_nat.simps) (simp add: digit_facts py_int_def)
  next
    case False
    with 1 have ih: "str_nat (n div 10) \<noteq> []" "list_all is_digit (str_nat (n div 10))"
        "py_int (str_nat (n div 10)) = int (n div 10)"
      by simp_all
    have m: "n mod 10 < 10" by simp
    have s: "str_nat n = str_nat (n div 10) @ [decimal_digits ! (n mod 10)]"
      using False by (subst str_nat.simps) simp
    have e: "10 * int (n div 10) + int (n mod 10) = int n"
      by presburger
    with ih m s show ?thesis
      by (simp add: py_int_snoc digit_facts del: mod_less_divisor)
  qed
qed

lemma count_chars_cases:
  "0 \<le> f \<Longrightarrow> f < 26 \<Longrightarrow> count_chars f (Suc 0) = 1"
  "26 \<le> f \<Longrightarrow> f < 676 \<Longrightarrow> count_chars f (Suc 0) = 2"
  "676 \<le> f \<Longrightarrow> f < 17576 \<Longrightarrow> count_chars f (Suc 0) = 3"
proof -
  show "0 \<le> f \<Longrightarrow> f < 26 \<Longrightarrow> count_chars f (Suc 0) = 1"
    by (subst count_chars.simps) simp
  have two: "f < 676 \<Longrightarrow> count_chars f (Suc (Suc 0)) = 2"
    by (subst count_chars.simps) simp
  have three: "f < 17576 \<Longrightarrow> count_chars f (Suc (Suc (Suc 0))) = 3"
    by (subst count_chars.simps) simp
  show "26 \<le> f \<Longrightarrow> f < 676 \<Longrightarrow> count_chars f (Suc 0) = 2"
    using two by (subst count_chars.simps) simp
  have "676 \<le> f \<Longrightarrow> f < 17576 \<Longrightarrow> count_chars f (Suc (Suc 0)) = 3"
    using three by (subst count_chars.simps) simp
  then show "676 \<le> f \<Longrightarrow> f < 17576 \<Longrightarrow> count_chars f (Suc 0) = 3"
    by (subst count_chars.simps) simp
qed

lemma above_676:
  fixes f :: int
  assumes "676 \<le> f" "f < 1352"
  shows "f div 676 = 1" and "f div 26 mod 26 = (f - 676) div 26"
    and "f mod 26 + 26 * ((f - 676) div 26) + 676 = f"
    and "0 \<le> (f - 676) div 26" and "(f - 676) div 26 < 26"
proof -
  define g where "g = f - 676"
  have g: "0 \<le> g" "g < 676" and f: "f = g + 26 * 26"
    using assms by (simp_all add: g_def)
  have q: "0 \<le> g div 26" "g div 26 < 26"
    using g by simp_all
  have dv: "f div 26 = 26 + g div 26"
    unfolding f using div_mult_self1 [of 26 g 26] by simp
  have md: "f mod 26 = g mod 26"
    unfolding f using mod_mult_self1 [of g 26 26] by simp
  show "f div 676 = 1" using assms by simp
  show "f div 26 mod 26 = (f - 676) div 26"
    unfolding dv g_def [symmetric] using q by simp
  have "g mod 26 + 26 * (g div 26) = g" by simp
  then show "f mod 26 + 26 * ((f - 676) div 26) + 676 = f"
    unfolding md g_def [symmetric] by (simp add: f)
  show "0 \<le> (f - 676) div 26" "(f - 676) div 26 < 26"
    using q by (simp_all add: g_def)
qed

lemma file_text_cases:
  "0 \<le> f \<Longrightarrow> f < 26 \<Longrightarrow> file_from_int_to_str f = [ascii_lowercase ! nat f]"
  "26 \<le> f \<Longrightarrow> f < 676 \<Longrightarrow>
     file_from_int_to_str f = [ascii_lowercase ! nat (f div 26), ascii_lowercase ! nat (f mod 26)]"
  "676 \<le> f \<Longrightarrow> f < 1352 \<Longrightarrow>
     file_from_int_to_str f =
       [ascii_lowercase ! 1, ascii_lowercase ! nat ((f - 676) div 26), ascii_lowercase ! nat (f mod 26)]"
proof -
  show "0 \<le> f \<Longrightarrow> f < 26 \<Longrightarrow> file_from_int_to_str f = [ascii_lowercase ! nat f]"
    by (simp add: file_from_int_to_str_def count_chars_cases)
  show "26 \<le> f \<Longrightarrow> f < 676 \<Longrightarrow>
     file_from_int_to_str f = [ascii_lowercase ! nat (f div 26), ascii_lowercase ! nat (f mod 26)]"
  proof -
    assume a: "26 \<le> f" "f < 676"
    then have "f div 26 < 26" by simp
    moreover have "0 \<le> f div 26" using a by simp
    ultimately have d1: "f div 26 mod 26 = f div 26" by simp
    have u: "[0..<2] = [0, 1]" by (simp add: upt_rec)
    from a have c: "count_chars f (Suc 0) = 2" by (simp add: count_chars_cases)
    show ?thesis
      by (simp add: file_from_int_to_str_def c u d1)
  qed
  show "676 \<le> f \<Longrightarrow> f < 1352 \<Longrightarrow>
     file_from_int_to_str f =
       [ascii_lowercase ! 1, ascii_lowercase ! nat ((f - 676) div 26), ascii_lowercase ! nat (f mod 26)]"
  proof -
    assume a: "676 \<le> f" "f < 1352"
    note d = above_676 [OF a]
    have u: "[0..<3] = [0, 1, 2]" by (simp add: upt_rec)
    from a have c: "count_chars f (Suc 0) = 3" by (simp add: count_chars_cases)
    show ?thesis
      by (simp add: file_from_int_to_str_def c u d(1) d(2))
  qed
qed

lemma file_roundtrip:
  assumes "0 \<le> f" "f < 1352"
  shows "file_from_str_to_int (file_from_int_to_str f) = Inr f"
    and "file_from_int_to_str f \<noteq> []"
    and "list_all is_letter (file_from_int_to_str f)"
proof -
  consider (one) "f < 26" | (two) "26 \<le> f" "f < 676" | (three) "676 \<le> f" "f < 1352"
    using assms by linarith
  then have "file_from_str_to_int (file_from_int_to_str f) = Inr f
      \<and> file_from_int_to_str f \<noteq> [] \<and> list_all is_letter (file_from_int_to_str f)"
  proof cases
    case one
    with assms have n: "nat f < 26" by simp
    from one assms show ?thesis
      by (simp add: file_text_cases file_from_str_to_int_def letter_facts [OF n])
  next
    case two
    then have n: "nat (f div 26) < 26" "nat (f mod 26) < 26" by simp_all
    have "f mod 26 + 26 * (f div 26) = f" by simp
    with two show ?thesis
      by (simp add: file_text_cases file_from_str_to_int_def letter_facts [OF n(1)] letter_facts [OF n(2)])
  next
    case three
    note d = above_676 [OF three]
    have m: "0 \<le> f mod 26" "f mod 26 < 26" by simp_all
    have n: "Suc 0 < 26" "nat ((f - 676) div 26) < 26" "nat (f mod 26) < 26"
      using d(4) d(5) m by linarith+
    from three d(3) d(4) show ?thesis
      by (simp add: file_text_cases file_from_str_to_int_def
            letter_facts [OF n(1)] letter_facts [OF n(2)] letter_facts [OF n(3)] power2_eq_square)
  qed
  then show "file_from_str_to_int (file_from_int_to_str f) = Inr f"
    and "file_from_int_to_str f \<noteq> []"
    and "list_all is_letter (file_from_int_to_str f)"
    by simp_all
qed

lemma regex_letters_digits:
  assumes "ls \<noteq> []" "list_all is_letter ls" "ds \<noteq> []" "list_all is_digit ds"
    and "\<And>c. is_digit c \<Longrightarrow> \<not> is_letter c"
  shows "location_regex (ls @ ds) = Some (ls, ds)"
proof -
  obtain d ds' where ds: "ds = d # ds'" using assms(3) by (cases ds) auto
  with assms(4,5) have nd: "\<not> is_letter d" by simp
  have tl: "takeWhile is_letter (ls @ ds) = ls"
    using assms(2) nd by (simp add: takeWhile_append2 list_all_iff ds)
  have dl: "dropWhile is_letter (ls @ ds) = ds"
    using assms(2) nd by (simp add: dropWhile_append2 list_all_iff ds)
  have td: "takeWhile is_digit ds = ds" "dropWhile is_digit ds = []"
    using assms(4) by (simp_all add: list_all_iff)
  show ?thesis
    unfolding location_regex_def Let_def tl dl td using assms(1,3) by simp
qed

lemma digits_are_not_letters: "list_all (\<lambda>c. \<not> is_letter c) decimal_digits"
  by code_simp

lemma digit_not_letter: "is_digit c \<Longrightarrow> \<not> is_letter c"
  using digits_are_not_letters by (simp add: is_digit_def list_all_iff)

text \<open>
  The squares that \<^verbatim>\<open>__update_castling_info\<close> names by their text.
\<close>

lemma home_squares:
  "StandardPosition_str ''e1'' = Inr (4, 0) \<and> StandardPosition_str ''a1'' = Inr (0, 0)
   \<and> StandardPosition_str ''h1'' = Inr (7, 0) \<and> StandardPosition_str ''e8'' = Inr (4, 7)
   \<and> StandardPosition_str ''a8'' = Inr (0, 7) \<and> StandardPosition_str ''h8'' = Inr (7, 7)"
  by code_simp

text \<open>
  C9, as stated, fails: file 26 is rendered \<^verbatim>\<open>ba\<close> (the text \<^verbatim>\<open>aa\<close> is file 0, as
  the docstrings of the two conversions say), and the text of file 1352, \<^verbatim>\<open>caa\<close>, is
  parsed back as file 2704.
\<close>

theorem position_text_counterexample:
  "position_str (26, 0) = ''ba1''
   \<and> StandardPosition_str ''aa1'' = Inr (0, 0)
   \<and> StandardPosition_str (position_str (1352, 0)) = Inr (2704, 0)"
  by code_simp

text \<open>
  C9, amended. The file is written in base 26 with the digits \<^verbatim>\<open>a\<close> = 0 to
  \<^verbatim>\<open>z\<close> = 25 and no leading \<^verbatim>\<open>a\<close> (so 26 is \<^verbatim>\<open>ba\<close>), followed by the rank
  plus one in decimal. For every position with a file from 0 to 1351 and a rank that is
  not negative, parsing the text of the position gives the position back.
\<close>

theorem position_text_roundtrip:
  assumes "0 \<le> f" "f < 1352" "0 \<le> r"
  shows "StandardPosition_str (position_str (f, r)) = Inr (f, r)
       \<and> file_from_int_to_str 0 = ''a'' \<and> file_from_int_to_str 25 = ''z''
       \<and> file_from_int_to_str 26 = ''ba''"
proof -
  let ?ls = "file_from_int_to_str f" and ?ds = "rank_from_int_to_str r"
  have ds: "?ds = str_nat (nat (r + 1))"
    using assms(3) by (simp add: rank_from_int_to_str_def py_str_def)
  note dg = str_nat_digits [of "nat (r + 1)"]
  have "location_regex (?ls @ ?ds) = Some (?ls, ?ds)"
    using file_roundtrip(2,3) [OF assms(1,2)] dg digit_not_letter
    unfolding ds by (intro regex_letters_digits) simp_all
  moreover have "rank_from_str_to_int ?ds = r"
    using dg assms(3) unfolding ds by (simp add: rank_from_str_to_int_def)
  ultimately have same: "StandardPosition_str (position_str (f, r)) = Inr (f, r)"
    by (simp add: StandardPosition_str_def position_str_def file_roundtrip(1) [OF assms(1,2)])
  have digits: "file_from_int_to_str 0 = ''a'' \<and> file_from_int_to_str 25 = ''z''
       \<and> file_from_int_to_str 26 = ''ba''"
    by code_simp
  from same digits show ?thesis by simp
qed

theorem position_text_roundtrip_witness:
  "(0::int) \<le> 700 \<and> (700::int) < 1352 \<and> (0::int) \<le> 11
   \<and> StandardPosition_str (position_str (700, 11)) = Inr (700, 11)
   \<and> file_from_int_to_str 0 = ''a'' \<and> file_from_int_to_str 25 = ''z''
   \<and> file_from_int_to_str 26 = ''ba''"
  using position_text_roundtrip [of 700 11] by simp

section \<open>Generator queries on an empty square\<close>

text \<open>
  C10. On a square that holds no piece (of the board the query looks at: the board
  passed, or the engine's own), each of \<^verbatim>\<open>standard_moves\<close>, \<^verbatim>\<open>standard_captures\<close>,
  \<^verbatim>\<open>special_moves\<close> and \<^verbatim>\<open>attacked_fields\<close> raises \<^verbatim>\<open>NoPiece\<close>.
\<close>

theorem generators_raise_NoPiece:
  assumes "get_piece (the_board s bo) position = None"
  shows "standard_moves s position bo = Inl NoPiece
       \<and> standard_captures s position bo = Inl NoPiece
       \<and> special_moves s position bo = Inl NoPiece
       \<and> attacked_fields s position bo = Inl NoPiece"
  using assms
  by (simp add: standard_moves_def standard_captures_def special_moves_def attacked_fields_def)

theorem generators_raise_NoPiece_witness:
  "get_piece (the_board (Normal True) None) (4, 3) = None
   \<and> standard_moves (Normal True) (4, 3) None = Inl NoPiece
   \<and> standard_captures (Normal True) (4, 3) None = Inl NoPiece
   \<and> special_moves (Normal True) (4, 3) None = Inl NoPiece
   \<and> attacked_fields (Normal True) (4, 3) None = Inl NoPiece"
proof -
  have empty: "get_piece (the_board (Normal True) None) (4, 3) = None"
    by code_simp
  from generators_raise_NoPiece [OF empty] empty show ?thesis
    by simp
qed

section \<open>The initial position\<close>

text \<open>
  The sixteen pawn moves and the four knight moves of White, as the enumeration returns
  them.
\<close>

lemma side_default: "all_available_moves s None = all_available_moves s (Some (on_move s))"
  by (simp add: all_available_moves_def)

lemma initial_moves:
  "all_available_moves (Normal True) None =
     Inr (map (\<lambda>(a, b). StandardMove a b)
       [((1, 0), (2, 2)), ((1, 0), (0, 2)), ((6, 0), (7, 2)), ((6, 0), (5, 2)),
        ((0, 1), (0, 2)), ((0, 1), (0, 3)), ((1, 1), (1, 2)), ((1, 1), (1, 3)),
        ((2, 1), (2, 2)), ((2, 1), (2, 3)), ((3, 1), (3, 2)), ((3, 1), (3, 3)),
        ((4, 1), (4, 2)), ((4, 1), (4, 3)), ((5, 1), (5, 2)), ((5, 1), (5, 3)),
        ((6, 1), (6, 2)), ((6, 1), (6, 3)), ((7, 1), (7, 2)), ((7, 1), (7, 3))])"
  by code_simp

text \<open>
  C8. In the state built by the constructor with the standard initial layout, White is
  on move and the enumeration \<^verbatim>\<open>all_available_moves\<close> for White is a list of exactly
  20 moves, all different.
\<close>

theorem initial_position_20_moves:
  "on_move (Normal True) = White
   \<and> (\<exists>ms. all_available_moves (Normal True) (Some White) = Inr ms
            \<and> distinct ms \<and> length ms = 20)"
proof -
  have w: "on_move (Normal True) = White"
    by (simp add: on_move_def Normal_def sides_def)
  have "all_available_moves (Normal True) (Some White) = all_available_moves (Normal True) None"
    using side_default [of "Normal True"] w by simp
  then show ?thesis
    unfolding initial_moves using w by (simp add: StandardMove_def)
qed

end
